theory Spec2Isabelle
  imports Main
begin

section \<open>Python values, errors and the host\<close>

text \<open>
  SuperCSV is a Python program. Its values are modelled by \<open>pyval\<close>; text is a list of
  code points below 256 (\<open>string\<close>). An exception is a value of \<open>error\<close>, and a function
  that can raise returns \<open>error + 'a\<close> with \<open>Inl\<close> for the exception. The three exception
  classes of \<^verbatim>\<open>modules/errors.py\<close> carry their message.

  Floats and datetimes are opaque: \<open>'f\<close> and \<open>'d\<close> are the host's float and datetime
  types, and what the standard library does with them (printing and parsing floats,
  timestamps, JSON, the CSV reader) is a field of the record \<open>host\<close>, passed to every
  function that needs it. A theorem with a host \<open>X\<close> in it holds for every host.

  The interpreter refuses to print or read an int of more decimal digits than
  \<^verbatim>\<open>sys.get_int_max_str_digits()\<close> (4300 unless it is set otherwise, 0 for no limit, and
  never between 1 and 639): \<open>int_max_str_digits\<close> of the host. Wherever the program turns
  an int into text, in \<^verbatim>\<open>str\<close> or in an f-string, the model can raise ValueError as the
  program does.

  Outside the model: the lock file and the waiting for it, failures of the file system
  while a bound store is written, the translation of line ends by the platform, and text
  beyond code point 255. The built-in exceptions carry no message here, except IndexError,
  which the program raises with a message it formats.
\<close>

datatype error =
    ParseError string
  | AnnotationCoverageError string
  | UpdateError string
  | IndexError string
  | ValueError
  | TypeError
  | AttributeError
  | OverflowError
  | OSError
  | CsvError

datatype ('f, 'd) pyval =
    PNone
  | PBool bool
  | PInt int
  | PFloat 'f
  | PStr string
  | PList "('f, 'd) pyval list"
  | PDict "(string \<times> ('f, 'd) pyval) list"
  | PDateTime 'd

text \<open>
  A row is a dict from column to value. Its keys are texts, but \<^verbatim>\<open>csv.DictReader\<close> files the
  cells of a data line beyond the last field under the key \<^verbatim>\<open>None\<close>: a key is \<open>Some\<close> text
  or \<open>None\<close>.
\<close>

type_synonym ('f, 'd) T_Row = "(string option \<times> ('f, 'd) pyval) list"

record ('f, 'd) host =
  int_max_str_digits :: nat
  float_str :: "'f \<Rightarrow> string"
  float_of_str :: "string \<Rightarrow> 'f option"
  float_of_int :: "int \<Rightarrow> 'f option"
  float_trunc :: "'f \<Rightarrow> error + int"
  float_truthy :: "'f \<Rightarrow> bool"
  other_str :: "('f, 'd) pyval \<Rightarrow> error + string"
  timestamp :: "'d \<Rightarrow> error + 'f"
  fromtimestamp :: "'f \<Rightarrow> error + 'd"
  json_dumps :: "('f, 'd) pyval \<Rightarrow> error + string"
  json_loads :: "string \<Rightarrow> error + ('f, 'd) pyval"
  csv_fieldnames :: "string \<Rightarrow> error + string list option"
  csv_rows :: "string \<Rightarrow> error + ('f, 'd) T_Row list"

text \<open>
  \<open>float_str\<close> is \<^verbatim>\<open>str(x)\<close>; \<open>float_of_str\<close> is \<^verbatim>\<open>float(s)\<close> (\<open>None\<close>: ValueError);
  \<open>float_of_int\<close> is \<^verbatim>\<open>float(n)\<close> (\<open>None\<close>: OverflowError); \<open>float_trunc\<close> is \<^verbatim>\<open>int(x)\<close>;
  \<open>float_truthy\<close> is \<^verbatim>\<open>bool(x)\<close>; \<open>other_str\<close> is \<^verbatim>\<open>str\<close> of a list, a dict or a
  datetime. \<open>csv_fieldnames\<close> is \<^verbatim>\<open>csv.DictReader(StringIO(s)).fieldnames\<close>, which is
  \<^verbatim>\<open>None\<close> when there is no first line, and \<open>csv_rows\<close> the rows the same reader yields;
  either can raise \<^verbatim>\<open>csv.Error\<close>.
\<close>

subsection \<open>Dictionaries\<close>

text \<open>
  A Python dict keeps insertion order, and \<^verbatim>\<open>d.values()\<close> and \<^verbatim>\<open>d.items()\<close> follow it, so
  a dict is an association list. Assigning to a key that is present keeps its place.
\<close>

definition dict_keys :: "('k \<times> 'v) list \<Rightarrow> 'k list" where
  "dict_keys d = map fst d"

definition dict_values :: "('k \<times> 'v) list \<Rightarrow> 'v list" where
  "dict_values d = map snd d"

definition dict_has :: "('k \<times> 'v) list \<Rightarrow> 'k \<Rightarrow> bool" where
  "dict_has d k = (k \<in> set (dict_keys d))"

definition dict_get :: "('k \<times> 'v) list \<Rightarrow> 'k \<Rightarrow> 'v option" where
  "dict_get d k = map_of d k"

fun dict_set :: "'k \<Rightarrow> 'v \<Rightarrow> ('k \<times> 'v) list \<Rightarrow> ('k \<times> 'v) list" where
  "dict_set k v [] = [(k, v)]"
| "dict_set k v ((k', v') # d) =
     (if k' = k then (k, v) # d else (k', v') # dict_set k v d)"

subsection \<open>Text\<close>

definition isspace :: "char \<Rightarrow> bool" where
  "isspace c = (c \<in> set [CHR 0x09, CHR 0x0A, CHR 0x0B, CHR 0x0C, CHR 0x0D, CHR 0x1C,
     CHR 0x1D, CHR 0x1E, CHR 0x1F, CHR 0x20, CHR 0x85, CHR 0xA0])"

definition strip :: "string \<Rightarrow> string" where
  "strip s = rev (dropWhile isspace (rev (dropWhile isspace s)))"

definition lower_char :: "char \<Rightarrow> char" where
  "lower_char c =
     (let n = (of_char c :: nat)
      in if (65 \<le> n \<and> n \<le> 90) \<or> (192 \<le> n \<and> n \<le> 222 \<and> n \<noteq> 215)
         then char_of (n + 32) else c)"

definition lower :: "string \<Rightarrow> string" where
  "lower s = map lower_char s"

definition startswith :: "string \<Rightarrow> string \<Rightarrow> bool" where
  "startswith s p = (take (length p) s = p)"

text \<open>The first occurrence of \<open>sep\<close> in a text: what stands before it and after it.\<close>

fun find_first :: "string \<Rightarrow> string \<Rightarrow> (string \<times> string) option" where
  "find_first sep [] = (if sep = [] then Some ([], []) else None)"
| "find_first sep (c # cs) =
     (if startswith (c # cs) sep then Some ([], drop (length sep) (c # cs))
      else (case find_first sep cs of
              None \<Rightarrow> None
            | Some (a, b) \<Rightarrow> Some (c # a, b)))"

text \<open>\<^verbatim>\<open>sep in s\<close>.\<close>

definition contains :: "string \<Rightarrow> string \<Rightarrow> bool" where
  "contains s sep = (find_first sep s \<noteq> None)"

lemma find_first_shorter:
  "find_first sep s = Some (a, b) \<Longrightarrow> sep \<noteq> [] \<Longrightarrow> length b < length s"
proof (induction s arbitrary: a b)
  case Nil
  then show ?case by simp
next
  case (Cons c cs)
  show ?case
  proof (cases "startswith (c # cs) sep")
    case True
    with Cons.prems show ?thesis by auto
  next
    case False
    with Cons.prems obtain a' where "find_first sep cs = Some (a', b)"
      by (auto split: option.splits)
    from Cons.IH [OF this Cons.prems(2)] show ?thesis by simp
  qed
qed

text \<open>
  \<^verbatim>\<open>s.split(sep)\<close>: every occurrence, left to right, none overlapping. Python raises
  ValueError for an empty separator; every call in the program passes a literal one, and
  the model returns the empty list there.
\<close>

function str_split :: "string \<Rightarrow> string \<Rightarrow> string list" where
  "str_split sep s =
     (if sep = [] then []
      else (case find_first sep s of
              None \<Rightarrow> [s]
            | Some (a, b) \<Rightarrow> a # str_split sep b))"
  by pat_completeness auto
termination
  by (relation "measure (\<lambda>(sep, s). length s)") (auto dest: find_first_shorter)

declare str_split.simps [simp del]

text \<open>\<^verbatim>\<open>s.split(sep, 1)\<close>: the first occurrence only.\<close>

definition str_split1 :: "string \<Rightarrow> string \<Rightarrow> string list" where
  "str_split1 sep s = (case find_first sep s of None \<Rightarrow> [s] | Some (a, b) \<Rightarrow> [a, b])"

fun join :: "string \<Rightarrow> string list \<Rightarrow> string" where
  "join sep [] = []"
| "join sep [x] = x"
| "join sep (x # y # ys) = x @ sep @ join sep (y # ys)"

subsection \<open>Integers as text\<close>

definition digit_char :: "nat \<Rightarrow> char" where
  "digit_char d = ''0123456789'' ! d"

function digits :: "nat \<Rightarrow> string" where
  "digits n = (if n < 10 then [digit_char n] else digits (n div 10) @ [digit_char (n mod 10)])"
  by pat_completeness auto
termination
  by (relation "measure id") auto

declare digits.simps [simp del]

text \<open>
  \<open>digits_allowed X n\<close>: the interpreter converts between an int of \<open>n\<close> decimal digits
  and its text. \<open>str_int\<close> is \<^verbatim>\<open>str(i)\<close> of an int, and the text of an int in an f-string.
\<close>

definition digits_allowed :: "('f, 'd) host \<Rightarrow> nat \<Rightarrow> bool" where
  "digits_allowed X n = (int_max_str_digits X = 0 \<or> n \<le> int_max_str_digits X)"

definition str_int :: "('f, 'd) host \<Rightarrow> int \<Rightarrow> error + string" where
  "str_int X i =
     (if \<not> digits_allowed X (length (digits (nat \<bar>i\<bar>))) then Inl ValueError
      else Inr (if i < 0 then CHR ''-'' # digits (nat (- i)) else digits (nat i)))"

definition digit_val :: "char \<Rightarrow> nat option" where
  "digit_val c =
     (let n = (of_char c :: nat) in if 48 \<le> n \<and> n \<le> 57 then Some (n - 48) else None)"

text \<open>
  \<^verbatim>\<open>int(s)\<close> of a text: the whitespace around it is dropped, a sign may come first, and the
  digits may be grouped by single underscores between them; the digits are counted
  against the interpreter's limit. Anything else is a ValueError (\<open>None\<close>). The whitespace
  of \<^verbatim>\<open>int\<close> is not that of \<^verbatim>\<open>str.strip\<close>: the separators U+001C to U+001F are no
  whitespace to it.
\<close>

definition int_isspace :: "char \<Rightarrow> bool" where
  "int_isspace c = (c \<in> set [CHR 0x09, CHR 0x0A, CHR 0x0B, CHR 0x0C, CHR 0x0D, CHR 0x20,
     CHR 0x85, CHR 0xA0])"

definition int_strip :: "string \<Rightarrow> string" where
  "int_strip s = rev (dropWhile int_isspace (rev (dropWhile int_isspace s)))"

fun digits_value :: "nat \<Rightarrow> string \<Rightarrow> nat option" where
  "digits_value acc [] = Some acc"
| "digits_value acc (c # cs) =
     (if c = CHR ''_''
      then (case cs of
              [] \<Rightarrow> None
            | d # _ \<Rightarrow> if d = CHR ''_'' then None else digits_value acc cs)
      else (case digit_val c of
              None \<Rightarrow> None
            | Some d \<Rightarrow> digits_value (10 * acc + d) cs))"

definition nat_of_str :: "('f, 'd) host \<Rightarrow> string \<Rightarrow> nat option" where
  "nat_of_str X r =
     (case r of
        [] \<Rightarrow> None
      | c # _ \<Rightarrow>
          if c = CHR ''_'' then None
          else (case digits_value 0 r of
                  None \<Rightarrow> None
                | Some n \<Rightarrow>
                    if digits_allowed X (length (filter (\<lambda>c. c \<noteq> CHR ''_'') r)) then Some n
                    else None))"

definition int_of_str :: "('f, 'd) host \<Rightarrow> string \<Rightarrow> int option" where
  "int_of_str X s =
     (case int_strip s of
        [] \<Rightarrow> None
      | c # r \<Rightarrow>
          if c = CHR ''-'' then map_option (\<lambda>n. - int n) (nat_of_str X r)
          else if c = CHR ''+'' then map_option int (nat_of_str X r)
          else map_option int (nat_of_str X (c # r)))"

subsection \<open>Built-in conversions\<close>

text \<open>\<^verbatim>\<open>str(v)\<close>, \<^verbatim>\<open>bool(v)\<close>, \<^verbatim>\<open>int(v)\<close> and \<^verbatim>\<open>float(v)\<close>.\<close>

fun py_str :: "('f, 'd) host \<Rightarrow> ('f, 'd) pyval \<Rightarrow> error + string" where
  "py_str X PNone = Inr ''None''"
| "py_str X (PBool b) = Inr (if b then ''True'' else ''False'')"
| "py_str X (PInt i) = str_int X i"
| "py_str X (PFloat f) = Inr (float_str X f)"
| "py_str X (PStr s) = Inr s"
| "py_str X (PList xs) = other_str X (PList xs)"
| "py_str X (PDict d) = other_str X (PDict d)"
| "py_str X (PDateTime t) = other_str X (PDateTime t)"

fun py_truthy :: "('f, 'd) host \<Rightarrow> ('f, 'd) pyval \<Rightarrow> bool" where
  "py_truthy X PNone = False"
| "py_truthy X (PBool b) = b"
| "py_truthy X (PInt i) = (i \<noteq> 0)"
| "py_truthy X (PFloat f) = float_truthy X f"
| "py_truthy X (PStr s) = (s \<noteq> [])"
| "py_truthy X (PList xs) = (xs \<noteq> [])"
| "py_truthy X (PDict d) = (d \<noteq> [])"
| "py_truthy X (PDateTime t) = True"

fun py_int :: "('f, 'd) host \<Rightarrow> ('f, 'd) pyval \<Rightarrow> error + int" where
  "py_int X (PInt i) = Inr i"
| "py_int X (PBool b) = Inr (if b then 1 else 0)"
| "py_int X (PFloat f) = float_trunc X f"
| "py_int X (PStr s) = (case int_of_str X s of None \<Rightarrow> Inl ValueError | Some i \<Rightarrow> Inr i)"
| "py_int X PNone = Inl TypeError"
| "py_int X (PList xs) = Inl TypeError"
| "py_int X (PDict d) = Inl TypeError"
| "py_int X (PDateTime t) = Inl TypeError"

fun py_float :: "('f, 'd) host \<Rightarrow> ('f, 'd) pyval \<Rightarrow> error + 'f" where
  "py_float X (PFloat f) = Inr f"
| "py_float X (PInt i) =
     (case float_of_int X i of None \<Rightarrow> Inl OverflowError | Some f \<Rightarrow> Inr f)"
| "py_float X (PBool b) =
     (case float_of_int X (if b then 1 else 0) of None \<Rightarrow> Inl OverflowError | Some f \<Rightarrow> Inr f)"
| "py_float X (PStr s) =
     (case float_of_str X s of None \<Rightarrow> Inl ValueError | Some f \<Rightarrow> Inr f)"
| "py_float X PNone = Inl TypeError"
| "py_float X (PList xs) = Inl TypeError"
| "py_float X (PDict d) = Inl TypeError"
| "py_float X (PDateTime t) = Inl TypeError"

section \<open>The type variants (modules/datatype.py)\<close>

datatype variant = Integer | Float | String | Boolean | Array | DateTime | Object

definition Integer_encode :: "('f, 'd) host \<Rightarrow> ('f, 'd) pyval \<Rightarrow> error + ('f, 'd) pyval" where
  "Integer_encode X data = (case py_int X data of Inl e \<Rightarrow> Inl e | Inr i \<Rightarrow> Inr (PInt i))"

definition Integer_decode :: "('f, 'd) host \<Rightarrow> ('f, 'd) pyval \<Rightarrow> error + ('f, 'd) pyval" where
  "Integer_decode X data = (case py_int X data of Inl e \<Rightarrow> Inl e | Inr i \<Rightarrow> Inr (PInt i))"

definition Float_encode :: "('f, 'd) host \<Rightarrow> ('f, 'd) pyval \<Rightarrow> error + ('f, 'd) pyval" where
  "Float_encode X data = (case py_float X data of Inl e \<Rightarrow> Inl e | Inr f \<Rightarrow> Inr (PFloat f))"

definition Float_decode :: "('f, 'd) host \<Rightarrow> ('f, 'd) pyval \<Rightarrow> error + ('f, 'd) pyval" where
  "Float_decode X data = (case py_float X data of Inl e \<Rightarrow> Inl e | Inr f \<Rightarrow> Inr (PFloat f))"

definition String_encode :: "('f, 'd) host \<Rightarrow> ('f, 'd) pyval \<Rightarrow> error + ('f, 'd) pyval" where
  "String_encode X data = (case py_str X data of Inl e \<Rightarrow> Inl e | Inr s \<Rightarrow> Inr (PStr s))"

definition String_decode :: "('f, 'd) host \<Rightarrow> ('f, 'd) pyval \<Rightarrow> error + ('f, 'd) pyval" where
  "String_decode X data = (case py_str X data of Inl e \<Rightarrow> Inl e | Inr s \<Rightarrow> Inr (PStr s))"

definition Boolean_encode :: "('f, 'd) host \<Rightarrow> ('f, 'd) pyval \<Rightarrow> error + ('f, 'd) pyval" where
  "Boolean_encode X data = Inr (PStr (if py_truthy X data then ''1'' else ''0''))"

definition Boolean_decode :: "('f, 'd) host \<Rightarrow> ('f, 'd) pyval \<Rightarrow> error + ('f, 'd) pyval" where
  "Boolean_decode X data = Inr (PBool (data = PStr ''1''))"

subsection \<open>Array\<close>

definition items_sep :: string where
  "items_sep = [CHR 0x00]"

text \<open>
  \<open>base_types_translation\<close> is the table \<^verbatim>\<open>_base_types_translation\<close> read at
  \<^verbatim>\<open>type(item)\<close>: the exact type, so a bool is not an int.
\<close>

fun base_types_translation :: "('f, 'd) pyval \<Rightarrow> string option" where
  "base_types_translation (PBool b) = Some ''B''"
| "base_types_translation (PStr s) = Some ''S''"
| "base_types_translation (PInt i) = Some ''I''"
| "base_types_translation (PFloat f) = Some ''F''"
| "base_types_translation PNone = None"
| "base_types_translation (PList xs) = None"
| "base_types_translation (PDict d) = None"
| "base_types_translation (PDateTime t) = None"

text \<open>\<^verbatim>\<open>for item in data\<close>: a list gives its items, a text its characters, a dict its keys.\<close>

fun py_iter :: "('f, 'd) pyval \<Rightarrow> error + ('f, 'd) pyval list" where
  "py_iter (PList xs) = Inr xs"
| "py_iter (PStr s) = Inr (map (\<lambda>c. PStr [c]) s)"
| "py_iter (PDict d) = Inr (map (\<lambda>kv. PStr (fst kv)) d)"
| "py_iter PNone = Inl TypeError"
| "py_iter (PBool b) = Inl TypeError"
| "py_iter (PInt i) = Inl TypeError"
| "py_iter (PFloat f) = Inl TypeError"
| "py_iter (PDateTime t) = Inl TypeError"

fun Array_encode_loop ::
  "('f, 'd) host \<Rightarrow> string \<Rightarrow> ('f, 'd) pyval list \<Rightarrow> error + string" where
  "Array_encode_loop X chain [] = Inr chain"
| "Array_encode_loop X chain (item # rest) =
     (case base_types_translation item of
        None \<Rightarrow> Inl ValueError
      | Some dt_prefix \<Rightarrow>
          (case py_str X item of
             Inl e \<Rightarrow> Inl e
           | Inr s \<Rightarrow> Array_encode_loop X (chain @ dt_prefix @ ''::'' @ s @ items_sep) rest))"

definition Array_encode :: "('f, 'd) host \<Rightarrow> ('f, 'd) pyval \<Rightarrow> error + ('f, 'd) pyval" where
  "Array_encode X data =
     (case py_iter data of
        Inl e \<Rightarrow> Inl e
      | Inr items \<Rightarrow>
          (case Array_encode_loop X [] items of Inl e \<Rightarrow> Inl e | Inr chain \<Rightarrow> Inr (PStr chain)))"

text \<open>
  One record of the chain: \<^verbatim>\<open>type_repr, value = item.split("::", 1)\<close> (a record without
  \<^verbatim>\<open>::\<close> does not unpack: ValueError), the search of the table for the prefix, in its
  order, and \<^verbatim>\<open>basetype(value)\<close>: \<^verbatim>\<open>bool(value)\<close>, \<^verbatim>\<open>str(value)\<close>, \<^verbatim>\<open>int(value)\<close> or
  \<^verbatim>\<open>float(value)\<close> of the text \<open>value\<close>.
\<close>

definition Array_decode_item :: "('f, 'd) host \<Rightarrow> string \<Rightarrow> error + ('f, 'd) pyval" where
  "Array_decode_item X item =
     (case str_split1 ''::'' item of
        [type_repr, val] \<Rightarrow>
          if type_repr = ''B'' then Inr (PBool (py_truthy X (PStr val)))
          else if type_repr = ''S'' then
            (case py_str X (PStr val) of Inl e \<Rightarrow> Inl e | Inr s \<Rightarrow> Inr (PStr s))
          else if type_repr = ''I'' then
            (case py_int X (PStr val) of Inl e \<Rightarrow> Inl e | Inr i \<Rightarrow> Inr (PInt i))
          else if type_repr = ''F'' then
            (case py_float X (PStr val) of Inl e \<Rightarrow> Inl e | Inr f \<Rightarrow> Inr (PFloat f))
          else Inl ValueError
      | _ \<Rightarrow> Inl ValueError)"

fun Array_decode_loop ::
  "('f, 'd) host \<Rightarrow> ('f, 'd) pyval list \<Rightarrow> string list \<Rightarrow> error + ('f, 'd) pyval list" where
  "Array_decode_loop X seq [] = Inr seq"
| "Array_decode_loop X seq (item # rest) =
     (if item = [] then Array_decode_loop X seq rest
      else (case Array_decode_item X item of
              Inl e \<Rightarrow> Inl e
            | Inr v \<Rightarrow> Array_decode_loop X (seq @ [v]) rest))"

definition Array_decode :: "('f, 'd) host \<Rightarrow> ('f, 'd) pyval \<Rightarrow> error + ('f, 'd) pyval" where
  "Array_decode X data =
     (case data of
        PStr s \<Rightarrow>
          (case Array_decode_loop X [] (str_split items_sep s) of
             Inl e \<Rightarrow> Inl e
           | Inr seq \<Rightarrow> Inr (PList seq))
      | _ \<Rightarrow> Inl AttributeError)"

subsection \<open>What the Array codec gives back\<close>

text \<open>
  \<open>array_item\<close> says which elements \<^verbatim>\<open>Array.encode\<close> takes and writes as a record that
  \<^verbatim>\<open>Array.decode\<close> can find again: a bool, an int that prints, a text without the
  terminator, and a float whose text has no terminator and is read back by the host as
  the same float.
  \<open>array_record\<close> is the record written for an element, and \<open>array_back\<close> the element
  that decoding the record gives.
\<close>

fun array_item :: "('f, 'd) host \<Rightarrow> ('f, 'd) pyval \<Rightarrow> bool" where
  "array_item X (PBool b) = True"
| "array_item X (PInt i) = digits_allowed X (length (digits (nat \<bar>i\<bar>)))"
| "array_item X (PStr s) = (CHR 0x00 \<notin> set s)"
| "array_item X (PFloat f) =
     (CHR 0x00 \<notin> set (float_str X f) \<and> float_of_str X (float_str X f) = Some f)"
| "array_item X PNone = False"
| "array_item X (PList xs) = False"
| "array_item X (PDict d) = False"
| "array_item X (PDateTime t) = False"

fun array_back :: "('f, 'd) pyval \<Rightarrow> ('f, 'd) pyval" where
  "array_back (PBool b) = PBool True"
| "array_back (PInt i) = PInt i"
| "array_back (PStr s) = PStr s"
| "array_back (PFloat f) = PFloat f"
| "array_back PNone = PNone"
| "array_back (PList xs) = PList xs"
| "array_back (PDict d) = PDict d"
| "array_back (PDateTime t) = PDateTime t"

definition array_record :: "('f, 'd) host \<Rightarrow> ('f, 'd) pyval \<Rightarrow> string" where
  "array_record X item =
     (case base_types_translation item of
        None \<Rightarrow> []
      | Some dt_prefix \<Rightarrow>
          (case py_str X item of Inl e \<Rightarrow> [] | Inr s \<Rightarrow> dt_prefix @ ''::'' @ s))"

subsection \<open>DateTime and Object\<close>

definition DateTime_encode :: "('f, 'd) host \<Rightarrow> ('f, 'd) pyval \<Rightarrow> error + ('f, 'd) pyval" where
  "DateTime_encode X data =
     (case data of
        PDateTime t \<Rightarrow>
          (case timestamp X t of Inl e \<Rightarrow> Inl e | Inr f \<Rightarrow> Inr (PStr (float_str X f)))
      | _ \<Rightarrow> Inl AttributeError)"

definition DateTime_decode :: "('f, 'd) host \<Rightarrow> ('f, 'd) pyval \<Rightarrow> error + ('f, 'd) pyval" where
  "DateTime_decode X data =
     (case py_float X data of
        Inl e \<Rightarrow> Inl e
      | Inr f \<Rightarrow> (case fromtimestamp X f of Inl e \<Rightarrow> Inl e | Inr t \<Rightarrow> Inr (PDateTime t)))"

definition Object_encode :: "('f, 'd) host \<Rightarrow> ('f, 'd) pyval \<Rightarrow> error + ('f, 'd) pyval" where
  "Object_encode X data = (case json_dumps X data of Inl e \<Rightarrow> Inl e | Inr s \<Rightarrow> Inr (PStr s))"

definition Object_decode :: "('f, 'd) host \<Rightarrow> ('f, 'd) pyval \<Rightarrow> error + ('f, 'd) pyval" where
  "Object_decode X data = (case data of PStr s \<Rightarrow> json_loads X s | _ \<Rightarrow> Inl TypeError)"

subsection \<open>Dispatch and the alias table\<close>

fun encode :: "('f, 'd) host \<Rightarrow> variant \<Rightarrow> ('f, 'd) pyval \<Rightarrow> error + ('f, 'd) pyval" where
  "encode X Integer = Integer_encode X"
| "encode X Float = Float_encode X"
| "encode X String = String_encode X"
| "encode X Boolean = Boolean_encode X"
| "encode X Array = Array_encode X"
| "encode X DateTime = DateTime_encode X"
| "encode X Object = Object_encode X"

fun decode :: "('f, 'd) host \<Rightarrow> variant \<Rightarrow> ('f, 'd) pyval \<Rightarrow> error + ('f, 'd) pyval" where
  "decode X Integer = Integer_decode X"
| "decode X Float = Float_decode X"
| "decode X String = String_decode X"
| "decode X Boolean = Boolean_decode X"
| "decode X Array = Array_decode X"
| "decode X DateTime = DateTime_decode X"
| "decode X Object = Object_decode X"

definition ANNOTATIONS_TABLE :: "(string \<times> variant) list" where
  "ANNOTATIONS_TABLE =
     [(''interger'', Integer), (''int'', Integer), (''i'', Integer),
      (''float'', Float), (''f'', Float),
      (''string'', String), (''str'', String), (''s'', String),
      (''boolean'', Boolean), (''bool'', Boolean), (''b'', Boolean),
      (''array'', Array), (''arr'', Array), (''a'', Array),
      (''object'', Object), (''obj'', Object), (''o'', Object)]"

section \<open>The parser (modules/parser.py)\<close>

definition dq :: char where
  "dq = CHR 0x22"

text \<open>
  \<open>parse_header\<close> is \<^verbatim>\<open>_parse_header\<close>. A line that does not split at \<^verbatim>\<open>:\<close> into exactly two
  parts fails the unpacking \<^verbatim>\<open>column, type_name = annotation.split(":")\<close>: ValueError.
\<close>

fun parse_header_loop ::
  "(string \<times> variant) list \<Rightarrow> string list \<Rightarrow> error + (string \<times> variant) list" where
  "parse_header_loop annotations [] = Inr annotations"
| "parse_header_loop annotations (annotation # rest) =
     (if annotation = [] then parse_header_loop annotations rest
      else (case str_split '':'' annotation of
              [column, type_name] \<Rightarrow>
                (if \<not> dict_has ANNOTATIONS_TABLE (strip (lower type_name))
                 then Inl (ParseError (''Invalid data type found for: '' @ strip column
                        @ '' ('' @ [dq] @ strip (lower type_name) @ [dq] @ '')''))
                 else (case dict_get ANNOTATIONS_TABLE (strip (lower type_name)) of
                         None \<Rightarrow> Inl TypeError
                       | Some t \<Rightarrow> parse_header_loop (dict_set (strip column) t annotations) rest))
            | _ \<Rightarrow> Inl ValueError))"

definition parse_header :: "string \<Rightarrow> error + (string \<times> variant) list" where
  "parse_header header = parse_header_loop [] (str_split ''\<newline>'' header)"

text \<open>
  \<open>ensure_types_coverage\<close> is \<^verbatim>\<open>_ensure_types_coverage\<close>: its two loops, and the argument
  \<^verbatim>\<open>fields\<close> as \<^verbatim>\<open>reader.fieldnames\<close> gives it, \<^verbatim>\<open>None\<close> included (\<^verbatim>\<open>for field in None\<close>
  is a TypeError).
\<close>

fun not_annotated :: "(string \<times> variant) list \<Rightarrow> string list \<Rightarrow> error + unit" where
  "not_annotated annotations [] = Inr ()"
| "not_annotated annotations (field # rest) =
     (if \<not> dict_has annotations field
      then Inl (AnnotationCoverageError (''Not annotated field: '' @ [dq] @ field @ [dq]))
      else not_annotated annotations rest)"

fun annotated_invalid :: "string list \<Rightarrow> string list \<Rightarrow> error + unit" where
  "annotated_invalid fs [] = Inr ()"
| "annotated_invalid fs (annotated_field # rest) =
     (if annotated_field \<notin> set fs
      then Inl (AnnotationCoverageError
             (''Annotated invalid field: '' @ [dq] @ annotated_field @ [dq]))
      else annotated_invalid fs rest)"

definition ensure_types_coverage ::
  "string list option \<Rightarrow> (string \<times> variant) list \<Rightarrow> error + unit" where
  "ensure_types_coverage fieldnames annotations =
     (case fieldnames of
        None \<Rightarrow> Inl TypeError
      | Some fs \<Rightarrow>
          (case not_annotated annotations fs of
             Inl e \<Rightarrow> Inl e
           | Inr u \<Rightarrow> annotated_invalid fs (dict_keys annotations)))"

text \<open>The field \<^verbatim>\<open>fields\<close> of the class is \<open>fields'\<close> here.\<close>

record ('f, 'd) SCSVObject =
  annotations :: "(string \<times> variant) list"
  fields' :: "string list"
  enc_rows :: "('f, 'd) T_Row list"
  file_path :: "string option"
  raw_header :: "string option"

text \<open>
  \<open>parse\<close> is \<^verbatim>\<open>_parse\<close>. \<^verbatim>\<open>header, raw_data = raw_content.split("@@")\<close> unpacks two
  parts: a text where the token stands twice splits into three and raises ValueError.
  The reader reads the field names when \<^verbatim>\<open>reader.fieldnames\<close> is asked for, before the
  coverage check, and the rows after it.
\<close>

definition parse ::
  "('f, 'd) host \<Rightarrow> string \<Rightarrow> string option \<Rightarrow> error + ('f, 'd) SCSVObject" where
  "parse X raw_content fp =
     (if \<not> contains raw_content ''@@''
      then Inl (ParseError (''Header separator not found '' @ [dq] @ ''@@'' @ [dq]))
      else (case str_split ''@@'' raw_content of
              [header, raw_data] \<Rightarrow>
                (case parse_header (strip header) of
                   Inl e \<Rightarrow> Inl e
                 | Inr ann \<Rightarrow>
                     (case csv_fieldnames X (strip raw_data) of
                        Inl e \<Rightarrow> Inl e
                      | Inr fieldnames \<Rightarrow>
                          (case ensure_types_coverage fieldnames ann of
                             Inl e \<Rightarrow> Inl e
                           | Inr u \<Rightarrow>
                               (case csv_rows X (strip raw_data) of
                                  Inl e \<Rightarrow> Inl e
                                | Inr rows \<Rightarrow>
                                    (case fieldnames of
                                       None \<Rightarrow> Inl TypeError
                                     | Some fs \<Rightarrow>
                                         Inr \<lparr>annotations = ann, fields' = fs,
                                              enc_rows = rows,
                                              file_path = fp, raw_header = Some header\<rparr>)))))
            | _ \<Rightarrow> Inl ValueError))"

text \<open>The entry points of \<^verbatim>\<open>supercsv.py\<close>; the files are a map from path to content.\<close>

type_synonym files = "string \<rightharpoonup> string"

definition parse_string :: "('f, 'd) host \<Rightarrow> string \<Rightarrow> error + ('f, 'd) SCSVObject" where
  "parse_string X content = parse X content None"

definition use_file ::
  "('f, 'd) host \<Rightarrow> files \<Rightarrow> string \<Rightarrow> error + ('f, 'd) SCSVObject" where
  "use_file X fs fp = (case fs fp of None \<Rightarrow> Inl OSError | Some raw_content \<Rightarrow> parse X raw_content (Some fp))"

section \<open>The row store (class SCSVObject)\<close>

text \<open>
  A method that mutates takes the object and the files and returns both with its result;
  where it raises, the pair it returns is the state the exception leaves behind.
\<close>

fun index_value :: "('f, 'd) pyval \<Rightarrow> int option" where
  "index_value (PInt i) = Some i"
| "index_value (PBool b) = Some (if b then 1 else 0)"
| "index_value PNone = None"
| "index_value (PFloat f) = None"
| "index_value (PStr s) = None"
| "index_value (PList xs) = None"
| "index_value (PDict d) = None"
| "index_value (PDateTime t) = None"

text \<open>
  \<open>type_str\<close> is the text of \<^verbatim>\<open>type(v)\<close>, and \<open>key_str\<close> the text of a key of a row, in an
  f-string.
\<close>

definition class_str :: "string \<Rightarrow> string" where
  "class_str name = ''<class '' @ [CHR 0x27] @ name @ [CHR 0x27] @ ''>''"

fun type_str :: "('f, 'd) pyval \<Rightarrow> string" where
  "type_str PNone = class_str ''NoneType''"
| "type_str (PBool b) = class_str ''bool''"
| "type_str (PInt i) = class_str ''int''"
| "type_str (PFloat f) = class_str ''float''"
| "type_str (PStr s) = class_str ''str''"
| "type_str (PList xs) = class_str ''list''"
| "type_str (PDict d) = class_str ''dict''"
| "type_str (PDateTime t) = class_str ''datetime.datetime''"

fun key_str :: "string option \<Rightarrow> string" where
  "key_str None = ''None''"
| "key_str (Some col) = col"

text \<open>
  \<open>validate_index\<close> is \<^verbatim>\<open>_validate_index\<close>: \<^verbatim>\<open>isinstance(index, int)\<close>, then
  \<^verbatim>\<open>index in range(0, len(self.enc_rows))\<close>. It returns the position the index names.
  The message of either IndexError is an f-string that is formatted before the exception
  is raised: the second holds the index, and formatting an int can raise ValueError. The
  number of rows always prints (a list is shorter than any limit on digits lets a number
  be).
\<close>

definition validate_index ::
  "('f, 'd) host \<Rightarrow> ('f, 'd) SCSVObject \<Rightarrow> ('f, 'd) pyval \<Rightarrow> error + nat" where
  "validate_index X self index =
     (case index_value index of
        None \<Rightarrow> Inl (IndexError (''Invalid index type: '' @ type_str index @ ''.''))
      | Some i \<Rightarrow>
          if 0 \<le> i \<and> i < int (length (enc_rows self)) then Inr (nat i)
          else (case py_str X index of
                  Inl e \<Rightarrow> Inl e
                | Inr s \<Rightarrow>
                    Inl (IndexError (''Invalid row index: '' @ s
                           @ ''. Total rows in object = '' @ digits (length (enc_rows self))))))"

text \<open>
  \<^verbatim>\<open>col in self.annotations\<close> and \<^verbatim>\<open>self.annotations.get(col)\<close> for a key of a row: the
  annotations have texts for keys, so the key \<^verbatim>\<open>None\<close> is in none.
\<close>

definition has_annotation :: "(string \<times> variant) list \<Rightarrow> string option \<Rightarrow> bool" where
  "has_annotation ann col = (case col of None \<Rightarrow> False | Some c \<Rightarrow> dict_has ann c)"

definition get_annotation :: "(string \<times> variant) list \<Rightarrow> string option \<Rightarrow> variant option" where
  "get_annotation ann col = (case col of None \<Rightarrow> None | Some c \<Rightarrow> dict_get ann c)"

fun encode_row_loop ::
  "('f, 'd) host \<Rightarrow> (string \<times> variant) list \<Rightarrow> ('f, 'd) T_Row \<Rightarrow> ('f, 'd) T_Row
     \<Rightarrow> error + ('f, 'd) T_Row" where
  "encode_row_loop X ann casted [] = Inr casted"
| "encode_row_loop X ann casted ((col, val) # rest) =
     (if \<not> has_annotation ann col then Inl (UpdateError (''Invalid column: '' @ key_str col))
      else (case get_annotation ann col of
              None \<Rightarrow> Inl AttributeError
            | Some t \<Rightarrow>
                (case encode X t val of
                   Inl e \<Rightarrow> Inl e
                 | Inr v \<Rightarrow> encode_row_loop X ann (dict_set col v casted) rest)))"

definition encode_row ::
  "('f, 'd) host \<Rightarrow> ('f, 'd) SCSVObject \<Rightarrow> ('f, 'd) T_Row \<Rightarrow> error + ('f, 'd) T_Row" where
  "encode_row X self data = encode_row_loop X (annotations self) [] data"

fun decode_row_loop ::
  "('f, 'd) host \<Rightarrow> (string \<times> variant) list \<Rightarrow> ('f, 'd) T_Row \<Rightarrow> ('f, 'd) T_Row
     \<Rightarrow> error + ('f, 'd) T_Row" where
  "decode_row_loop X ann decoded [] = Inr decoded"
| "decode_row_loop X ann decoded ((col, val) # rest) =
     (if \<not> has_annotation ann col then Inl (UpdateError (''Invalid column: '' @ key_str col))
      else (case get_annotation ann col of
              None \<Rightarrow> Inl AttributeError
            | Some t \<Rightarrow>
                (case decode X t val of
                   Inl e \<Rightarrow> Inl e
                 | Inr v \<Rightarrow> decode_row_loop X ann (dict_set col v decoded) rest)))"

definition decode_row ::
  "('f, 'd) host \<Rightarrow> ('f, 'd) SCSVObject \<Rightarrow> ('f, 'd) T_Row \<Rightarrow> error + ('f, 'd) T_Row" where
  "decode_row X self data = decode_row_loop X (annotations self) [] data"

subsection \<open>Persistence\<close>

text \<open>
  \<open>document\<close> is the text \<^verbatim>\<open>_save\<close> builds; \<open>strs\<close> is \<^verbatim>\<open>map(str, values)\<close> as \<^verbatim>\<open>join\<close>
  consumes it, up to the first value whose \<^verbatim>\<open>str\<close> raises. \<^verbatim>\<open>open(self.file_path, "w")\<close>
  empties the file before the text is built, so a failure while building it
  (\<^verbatim>\<open>raw_header\<close> is \<^verbatim>\<open>None\<close>, or a value does not print) leaves the file empty. The lock
  file beside it is not modelled.
\<close>

fun strs :: "('f, 'd) host \<Rightarrow> ('f, 'd) pyval list \<Rightarrow> error + string list" where
  "strs X [] = Inr []"
| "strs X (v # vs) =
     (case py_str X v of
        Inl e \<Rightarrow> Inl e
      | Inr s \<Rightarrow> (case strs X vs of Inl e \<Rightarrow> Inl e | Inr ss \<Rightarrow> Inr (s # ss)))"

definition row_line :: "('f, 'd) host \<Rightarrow> ('f, 'd) T_Row \<Rightarrow> error + string" where
  "row_line X row =
     (case strs X (dict_values row) of Inl e \<Rightarrow> Inl e | Inr ss \<Rightarrow> Inr (join '','' ss))"

fun row_lines :: "('f, 'd) host \<Rightarrow> ('f, 'd) T_Row list \<Rightarrow> error + string list" where
  "row_lines X [] = Inr []"
| "row_lines X (row # rows) =
     (case row_line X row of
        Inl e \<Rightarrow> Inl e
      | Inr l \<Rightarrow> (case row_lines X rows of Inl e \<Rightarrow> Inl e | Inr ls \<Rightarrow> Inr (l # ls)))"

definition document ::
  "('f, 'd) host \<Rightarrow> ('f, 'd) SCSVObject \<Rightarrow> string \<Rightarrow> error + string" where
  "document X self header =
     (case row_lines X (enc_rows self) of
        Inl e \<Rightarrow> Inl e
      | Inr ls \<Rightarrow>
          Inr (header @ ''@@\<newline>'' @ join '','' (fields' self) @ ''\<newline>''
                 @ join ''\<newline>'' ls @ ''\<newline>''))"

definition save ::
  "('f, 'd) host \<Rightarrow> ('f, 'd) SCSVObject \<Rightarrow> files \<Rightarrow> (error + unit) \<times> files" where
  "save X self fs =
     (case file_path self of
        None \<Rightarrow> (Inr (), fs)
      | Some fp \<Rightarrow>
          if fp = [] then (Inr (), fs)
          else (case raw_header self of
                  None \<Rightarrow> (Inl TypeError, fs(fp \<mapsto> []))
                | Some header \<Rightarrow>
                    (case document X self header of
                       Inl e \<Rightarrow> (Inl e, fs(fp \<mapsto> []))
                     | Inr content \<Rightarrow> (Inr (), fs(fp \<mapsto> content)))))"

subsection \<open>Reading\<close>

text \<open>
  \<open>read\<close> is \<^verbatim>\<open>read\<close>: its \<^verbatim>\<open>try\<close> block covers the validation and the decoding, and
  \<^verbatim>\<open>except IndexError\<close> turns an IndexError of either into \<^verbatim>\<open>None\<close>.
\<close>

fun is_IndexError :: "error \<Rightarrow> bool" where
  "is_IndexError (IndexError m) = True"
| "is_IndexError (ParseError m) = False"
| "is_IndexError (AnnotationCoverageError m) = False"
| "is_IndexError (UpdateError m) = False"
| "is_IndexError ValueError = False"
| "is_IndexError TypeError = False"
| "is_IndexError AttributeError = False"
| "is_IndexError OverflowError = False"
| "is_IndexError OSError = False"
| "is_IndexError CsvError = False"

definition read ::
  "('f, 'd) host \<Rightarrow> ('f, 'd) SCSVObject \<Rightarrow> ('f, 'd) pyval \<Rightarrow> error + ('f, 'd) T_Row option" where
  "read X self index =
     (case validate_index X self index of
        Inl e \<Rightarrow> if is_IndexError e then Inr None else Inl e
      | Inr i \<Rightarrow>
          (case decode_row X self (enc_rows self ! i) of
             Inl e \<Rightarrow> if is_IndexError e then Inr None else Inl e
           | Inr row \<Rightarrow> Inr (Some row)))"

text \<open>
  \<^verbatim>\<open>read_all\<close> is a generator: the call runs nothing, and each \<^verbatim>\<open>next\<close> resumes the loop
  \<^verbatim>\<open>for enc_row in self.enc_rows\<close>. The loop's list iterator holds a position in the list
  object, which every mutation changes in place. \<open>At pos\<close> is the generator whose iterator
  stands at \<open>pos\<close>; \<open>Exhausted\<close> is the generator that has returned or raised.
\<close>

datatype read_all_state = At nat | Exhausted

datatype ('f, 'd) gen_result = Yield "('f, 'd) T_Row" | StopIteration | Raise error

definition read_all :: read_all_state where
  "read_all = At 0"

fun read_all_next ::
  "('f, 'd) host \<Rightarrow> ('f, 'd) SCSVObject \<Rightarrow> read_all_state
     \<Rightarrow> ('f, 'd) gen_result \<times> read_all_state" where
  "read_all_next X self Exhausted = (StopIteration, Exhausted)"
| "read_all_next X self (At pos) =
     (if pos < length (enc_rows self)
      then (case decode_row X self (enc_rows self ! pos) of
              Inl e \<Rightarrow> (Raise e, Exhausted)
            | Inr dec_row \<Rightarrow> (Yield dec_row, At (Suc pos)))
      else (StopIteration, Exhausted))"

subsection \<open>Mutation\<close>

fun update_row ::
  "('f, 'd) host \<Rightarrow> ('f, 'd) pyval \<Rightarrow> ('f, 'd) T_Row \<Rightarrow> ('f, 'd) SCSVObject \<times> files
     \<Rightarrow> (error + unit) \<times> ('f, 'd) SCSVObject \<times> files" where
  "update_row X index row_data (self, fs) =
     (case validate_index X self index of
        Inl e \<Rightarrow> (Inl e, self, fs)
      | Inr i \<Rightarrow>
          (case encode_row X self row_data of
             Inl e \<Rightarrow> (Inl e, self, fs)
           | Inr encoded_row \<Rightarrow>
               (let self' = self\<lparr>enc_rows := (enc_rows self)[i := encoded_row]\<rparr>
                in (fst (save X self' fs), self', snd (save X self' fs)))))"

fun update_field ::
  "('f, 'd) host \<Rightarrow> ('f, 'd) pyval \<Rightarrow> string option \<Rightarrow> ('f, 'd) pyval
     \<Rightarrow> ('f, 'd) SCSVObject \<times> files \<Rightarrow> (error + unit) \<times> ('f, 'd) SCSVObject \<times> files" where
  "update_field X index col val (self, fs) =
     (case validate_index X self index of
        Inl e \<Rightarrow> (Inl e, self, fs)
      | Inr i \<Rightarrow>
          if \<not> has_annotation (annotations self) col
          then (Inl (UpdateError (''Invalid column: '' @ [dq] @ key_str col @ [dq])), self, fs)
          else (case get_annotation (annotations self) col of
                  None \<Rightarrow> (Inl AttributeError, self, fs)
                | Some t \<Rightarrow>
                    (case encode X t val of
                       Inl e \<Rightarrow> (Inl e, self, fs)
                     | Inr v \<Rightarrow>
                         (let self' = self\<lparr>enc_rows :=
                                (enc_rows self)[i := dict_set col v (enc_rows self ! i)]\<rparr>
                          in (fst (save X self' fs), self', snd (save X self' fs))))))"

fun remove_row ::
  "('f, 'd) host \<Rightarrow> ('f, 'd) pyval \<Rightarrow> ('f, 'd) SCSVObject \<times> files
     \<Rightarrow> (error + unit) \<times> ('f, 'd) SCSVObject \<times> files" where
  "remove_row X index (self, fs) =
     (case validate_index X self index of
        Inl e \<Rightarrow> (Inl e, self, fs)
      | Inr i \<Rightarrow>
          (let self' = self\<lparr>enc_rows := take i (enc_rows self) @ drop (Suc i) (enc_rows self)\<rparr>
           in (fst (save X self' fs), self', snd (save X self' fs))))"

fun insert_row ::
  "('f, 'd) host \<Rightarrow> ('f, 'd) T_Row \<Rightarrow> ('f, 'd) SCSVObject \<times> files
     \<Rightarrow> (error + unit) \<times> ('f, 'd) SCSVObject \<times> files" where
  "insert_row X row_data (self, fs) =
     (case encode_row X self row_data of
        Inl e \<Rightarrow> (Inl e, self, fs)
      | Inr encoded_row \<Rightarrow>
          (let self' = self\<lparr>enc_rows := enc_rows self @ [encoded_row]\<rparr>
           in (fst (save X self' fs), self', snd (save X self' fs))))"

subsection \<open>Draining a traversal, and a caller that mutates between yields\<close>

text \<open>
  \<open>read_all_list\<close> is \<^verbatim>\<open>list(gen)\<close> for a generator in state \<open>g\<close> over a store that
  nobody mutates meanwhile: the rows it yields and the exception that ended it, if one
  did. \<open>decode_all\<close> decodes a list of rows in order up to the first failure.

  \<open>caller\<close> is a caller of one traversal that calls \<^verbatim>\<open>next\<close> and mutates the store in
  the order of its steps; it returns the rows the traversal yielded (a \<^verbatim>\<open>next\<close> that stops
  or raises adds none, and the caller goes on).
\<close>

function read_all_list ::
  "('f, 'd) host \<Rightarrow> ('f, 'd) SCSVObject \<Rightarrow> read_all_state
     \<Rightarrow> ('f, 'd) T_Row list \<times> error option" where
  "read_all_list X self g =
     (case read_all_next X self g of
        (Yield dec_row, g') \<Rightarrow>
          (dec_row # fst (read_all_list X self g'), snd (read_all_list X self g'))
      | (StopIteration, g') \<Rightarrow> ([], None)
      | (Raise e, g') \<Rightarrow> ([], Some e))"
  by pat_completeness auto
termination
proof (relation "measure (\<lambda>(X, self, g). case g of At pos \<Rightarrow> Suc (length (enc_rows self)) - pos
                                                     | Exhausted \<Rightarrow> 0)")
  show "wf (measure (\<lambda>(X, self, g). case g of At pos \<Rightarrow> Suc (length (enc_rows self)) - pos
                                                     | Exhausted \<Rightarrow> 0))"
    by simp
next
  fix X :: "('f, 'd) host" and self :: "('f, 'd) SCSVObject" and g x1 x2 dec_row
  assume "(x1, x2) = read_all_next X self g" "x1 = Yield dec_row"
  then show "((X, self, x2), (X, self, g))
       \<in> measure (\<lambda>(X, self, g). case g of At pos \<Rightarrow> Suc (length (enc_rows self)) - pos
                                                     | Exhausted \<Rightarrow> 0)"
    by (cases g) (auto split: if_splits sum.splits)
next
  fix X :: "('f, 'd) host" and self :: "('f, 'd) SCSVObject" and g x1 x2 dec_row
  assume "(x1, x2) = read_all_next X self g" "x1 = Yield dec_row"
  then show "((X, self, x2), (X, self, g))
       \<in> measure (\<lambda>(X, self, g). case g of At pos \<Rightarrow> Suc (length (enc_rows self)) - pos
                                                     | Exhausted \<Rightarrow> 0)"
    by (cases g) (auto split: if_splits sum.splits)
qed

declare read_all_list.simps [simp del]

fun decode_all ::
  "('f, 'd) host \<Rightarrow> ('f, 'd) SCSVObject \<Rightarrow> ('f, 'd) T_Row list
     \<Rightarrow> ('f, 'd) T_Row list \<times> error option" where
  "decode_all X self [] = ([], None)"
| "decode_all X self (enc_row # rest) =
     (case decode_row X self enc_row of
        Inl e \<Rightarrow> ([], Some e)
      | Inr dec_row \<Rightarrow> (dec_row # fst (decode_all X self rest), snd (decode_all X self rest)))"

datatype ('f, 'd) caller_step =
    Next
  | Mutate "('f, 'd) SCSVObject \<times> files \<Rightarrow> (error + unit) \<times> ('f, 'd) SCSVObject \<times> files"

fun caller ::
  "('f, 'd) host \<Rightarrow> ('f, 'd) caller_step list \<Rightarrow> ('f, 'd) SCSVObject \<times> files
     \<Rightarrow> read_all_state \<Rightarrow> ('f, 'd) T_Row list" where
  "caller X [] w g = []"
| "caller X (Next # steps) w g =
     (case read_all_next X (fst w) g of
        (Yield dec_row, g') \<Rightarrow> dec_row # caller X steps w g'
      | (StopIteration, g') \<Rightarrow> caller X steps w g'
      | (Raise e, g') \<Rightarrow> caller X steps w g')"
| "caller X (Mutate m # steps) w g = caller X steps (snd (m w)) g"

subsection \<open>What a row encodes to\<close>

text \<open>
  \<open>encodes_to X ann (c, x) (c', low)\<close>: the column is the same, it is annotated, and its
  variant encodes \<open>x\<close> to \<open>low\<close>.
\<close>

definition encodes_to ::
  "('f, 'd) host \<Rightarrow> (string \<times> variant) list \<Rightarrow> string option \<times> ('f, 'd) pyval
     \<Rightarrow> string option \<times> ('f, 'd) pyval \<Rightarrow> bool" where
  "encodes_to X ann p q =
     (fst q = fst p \<and> (\<exists>t. get_annotation ann (fst p) = Some t \<and> encode X t (snd p) = Inr (snd q)))"

section \<open>A host and a store for concrete evaluation\<close>

text \<open>
  \<open>example_host\<close> is an interpreter with the default limit of 4300 digits and the
  \<^verbatim>\<open>csv\<close> module's reader, and without floats, datetimes, JSON and the text of a list, a
  dict or a datetime: every function of those is a stub, and no concrete input below goes
  through one. \<open>example_store\<close> is what \<open>parse\<close> makes of \<open>example_text\<close>.
\<close>

subsection \<open>The reader of the csv module\<close>

text \<open>
  \<^verbatim>\<open>csv.reader\<close> in its default dialect (comma, double quote, doubled quotes, not strict)
  over the lines of a \<^verbatim>\<open>StringIO\<close>, which end at \<^verbatim>\<open>\n\<close> only. The parser keeps a state, the
  field it is reading and the fields of the record so far; a field holds at most 131072
  characters. \<open>process_char\<close> is one step of \<^verbatim>\<open>parse_process_char\<close> on a character and
  \<open>process_eol\<close> the step at the end of a line.
\<close>

datatype csv_state =
  START_RECORD | START_FIELD | IN_FIELD | IN_QUOTED_FIELD | QUOTE_IN_QUOTED_FIELD | EAT_CRNL

type_synonym csv_parser = "csv_state \<times> string \<times> string list"

definition field_limit :: int where
  "field_limit = 131072"

definition add_char :: "char \<Rightarrow> csv_state \<Rightarrow> string \<Rightarrow> string list \<Rightarrow> error + csv_parser" where
  "add_char c st field fs =
     (if field_limit \<le> int (length field) then Inl CsvError else Inr (st, field @ [c], fs))"

definition is_newline :: "char \<Rightarrow> bool" where
  "is_newline c = (c = CHR 0x0A \<or> c = CHR 0x0D)"

fun process_char :: "char \<Rightarrow> csv_parser \<Rightarrow> error + csv_parser" where
  "process_char c (START_RECORD, field, fs) =
     (if is_newline c then Inr (EAT_CRNL, field, fs)
      else if c = dq then Inr (IN_QUOTED_FIELD, field, fs)
      else if c = CHR '','' then Inr (START_FIELD, [], fs @ [field])
      else add_char c IN_FIELD field fs)"
| "process_char c (START_FIELD, field, fs) =
     (if is_newline c then Inr (EAT_CRNL, [], fs @ [field])
      else if c = dq then Inr (IN_QUOTED_FIELD, field, fs)
      else if c = CHR '','' then Inr (START_FIELD, [], fs @ [field])
      else add_char c IN_FIELD field fs)"
| "process_char c (IN_FIELD, field, fs) =
     (if is_newline c then Inr (EAT_CRNL, [], fs @ [field])
      else if c = CHR '','' then Inr (START_FIELD, [], fs @ [field])
      else add_char c IN_FIELD field fs)"
| "process_char c (IN_QUOTED_FIELD, field, fs) =
     (if c = dq then Inr (QUOTE_IN_QUOTED_FIELD, field, fs)
      else add_char c IN_QUOTED_FIELD field fs)"
| "process_char c (QUOTE_IN_QUOTED_FIELD, field, fs) =
     (if c = dq then add_char c IN_QUOTED_FIELD field fs
      else if c = CHR '','' then Inr (START_FIELD, [], fs @ [field])
      else if is_newline c then Inr (EAT_CRNL, [], fs @ [field])
      else add_char c IN_FIELD field fs)"
| "process_char c (EAT_CRNL, field, fs) =
     (if is_newline c then Inr (EAT_CRNL, field, fs) else Inl CsvError)"

fun process_eol :: "csv_parser \<Rightarrow> csv_parser" where
  "process_eol (START_RECORD, field, fs) = (START_RECORD, field, fs)"
| "process_eol (START_FIELD, field, fs) = (START_RECORD, [], fs @ [field])"
| "process_eol (IN_FIELD, field, fs) = (START_RECORD, [], fs @ [field])"
| "process_eol (IN_QUOTED_FIELD, field, fs) = (IN_QUOTED_FIELD, field, fs)"
| "process_eol (QUOTE_IN_QUOTED_FIELD, field, fs) = (START_RECORD, [], fs @ [field])"
| "process_eol (EAT_CRNL, field, fs) = (START_RECORD, field, fs)"

text \<open>
  \<open>csv_records s pending p\<close>: the records the reader yields from the text \<open>s\<close>, and the
  error that ends them if one does. \<open>pending\<close> says that the line being read has a
  character already: the end of the text then ends a line. A record is complete when the
  parser is back at the start of a record at the end of a line; at the end of the text
  inside a quoted field, the field and the record are closed as they stand.
\<close>

fun csv_records :: "string \<Rightarrow> bool \<Rightarrow> csv_parser \<Rightarrow> string list list \<times> error option" where
  "csv_records [] pending p =
     (case (if pending then process_eol p else p) of
        (st, field, fs) \<Rightarrow>
          if st = IN_QUOTED_FIELD then ([fs @ [field]], None)
          else if pending then ([fs], None)
          else ([], None))"
| "csv_records (c # cs) pending p =
     (case process_char c p of
        Inl e \<Rightarrow> ([], Some e)
      | Inr p' \<Rightarrow>
          if c = CHR 0x0A
          then (if fst (process_eol p') = START_RECORD
                then (snd (snd (process_eol p')) # fst (csv_records cs False (START_RECORD, [], [])),
                      snd (csv_records cs False (START_RECORD, [], [])))
                else csv_records cs False (process_eol p'))
          else csv_records cs True p')"

definition reader :: "string \<Rightarrow> string list list \<times> error option" where
  "reader s = csv_records s False (START_RECORD, [], [])"

text \<open>
  \<^verbatim>\<open>csv.DictReader\<close> on top of it: the first record is the field names (\<^verbatim>\<open>None\<close> when the
  reader has no record). Every later record that is not empty becomes
  \<^verbatim>\<open>dict(zip(fieldnames, row))\<close>, with the cells beyond the last field as a list under the
  key \<^verbatim>\<open>None\<close>, and \<^verbatim>\<open>None\<close> for every field beyond the last cell.
\<close>

fun zip_row :: "string list \<Rightarrow> string list \<Rightarrow> ('f, 'd) T_Row \<Rightarrow> ('f, 'd) T_Row" where
  "zip_row [] [] d = d"
| "zip_row [] (v # vs) d = dict_set None (PList (map PStr (v # vs))) d"
| "zip_row (f # fs) [] d = zip_row fs [] (dict_set (Some f) PNone d)"
| "zip_row (f # fs) (v # vs) d = zip_row fs vs (dict_set (Some f) (PStr v) d)"

definition DictReader_fieldnames :: "string \<Rightarrow> error + string list option" where
  "DictReader_fieldnames s =
     (case reader s of
        ([], None) \<Rightarrow> Inr None
      | ([], Some e) \<Rightarrow> Inl e
      | (fieldnames # rows, e) \<Rightarrow> Inr (Some fieldnames))"

definition DictReader_rows :: "string \<Rightarrow> error + ('f, 'd) T_Row list" where
  "DictReader_rows s =
     (case reader s of
        (records, Some e) \<Rightarrow> Inl e
      | ([], None) \<Rightarrow> Inr []
      | (fieldnames # rows, None) \<Rightarrow>
          Inr (map (\<lambda>row. zip_row fieldnames row []) (filter (\<lambda>row. row \<noteq> []) rows)))"

subsection \<open>The host and the store\<close>

definition example_host :: "(unit, unit) host" where
  "example_host =
     \<lparr>int_max_str_digits = 4300,
      float_str = (\<lambda>f. ''nan''), float_of_str = (\<lambda>s. None), float_of_int = (\<lambda>i. None),
      float_trunc = (\<lambda>f. Inl ValueError), float_truthy = (\<lambda>f. True),
      other_str = (\<lambda>v. Inl TypeError), timestamp = (\<lambda>t. Inr ()),
      fromtimestamp = (\<lambda>f. Inl OverflowError),
      json_dumps = (\<lambda>v. Inl TypeError), json_loads = (\<lambda>s. Inl ValueError),
      csv_fieldnames = DictReader_fieldnames, csv_rows = DictReader_rows\<rparr>"

definition example_text :: string where
  "example_text =
     ''a: int\<newline>b: str\<newline>c: arr\<newline>@@\<newline>a,b,c\<newline>1,x,\<newline>2,y,\<newline>''"

definition example_store :: "('f, 'd) SCSVObject" where
  "example_store =
     \<lparr>annotations = [(''a'', Integer), (''b'', String), (''c'', Array)],
      fields' = [''a'', ''b'', ''c''],
      enc_rows =
        [[(Some ''a'', PStr ''1''), (Some ''b'', PStr ''x''), (Some ''c'', PStr [])],
         [(Some ''a'', PStr ''2''), (Some ''b'', PStr ''y''), (Some ''c'', PStr [])]],
      file_path = Some ''t.scsv'',
      raw_header = Some ''a: int\<newline>b: str\<newline>c: arr\<newline>''\<rparr>"

lemma example_store_parsed:
  "parse example_host example_text (Some ''t.scsv'') = Inr example_store"
  by code_simp

section \<open>The type registry\<close>

lemma dict_has_get: "dict_has d k \<longleftrightarrow> dict_get d k \<noteq> None"
  by (simp add: dict_has_def dict_keys_def dict_get_def map_of_eq_None_iff)

text \<open>
  On their own kinds of value the scalar variants give back what they were given: an int
  through Integer, a text through String, a bool through Boolean.
\<close>

lemma Integer_roundtrip:
  "Integer_encode X (PInt i) = Inr (PInt i) \<and> Integer_decode X (PInt i) = Inr (PInt i)"
  by (simp add: Integer_encode_def Integer_decode_def)

lemma String_roundtrip:
  "String_encode X (PStr s) = Inr (PStr s) \<and> String_decode X (PStr s) = Inr (PStr s)"
  by (simp add: String_encode_def String_decode_def)

lemma Boolean_roundtrip:
  "Boolean_encode X (PBool b) = Inr (PStr (if b then ''1'' else ''0''))
   \<and> Boolean_decode X (PStr (if b then ''1'' else ''0'')) = Inr (PBool b)"
  by (simp add: Boolean_encode_def Boolean_decode_def)

lemma Float_roundtrip:
  "Float_encode X (PFloat f) = Inr (PFloat f) \<and> Float_decode X (PFloat f) = Inr (PFloat f)"
  by (simp add: Float_encode_def Float_decode_def)

subsection \<open>Integers and arrays as text\<close>

text \<open>
  Reading the decimal text of an int that prints gives the int back
  (\<open>int_of_str_str_int\<close>). For a list of elements that \<open>array_item\<close> admits,
  \<^verbatim>\<open>Array.decode\<close> of what \<^verbatim>\<open>Array.encode\<close> wrote is the list with every element replaced by
  its \<open>array_back\<close>: the same int, text or float, and \<^verbatim>\<open>True\<close> for every bool
  (\<open>Array_roundtrip\<close>).
\<close>

lemma digit_char_cases:
  assumes "d < (10::nat)"
  shows "d \<in> {0, 1, 2, 3, 4, 5, 6, 7, 8, 9}"
  using assms by (simp only: insert_iff empty_iff) arith

lemma digit_val_digit_char: "d < 10 \<Longrightarrow> digit_val (digit_char d) = Some d"
  by (drule digit_char_cases) (auto simp: digit_char_def digit_val_def)

lemma digit_char_plain:
  "d < 10 \<Longrightarrow> digit_char d \<notin> {CHR ''_'', CHR ''-'', CHR ''+'', CHR 0x00, CHR '':''}
     \<and> \<not> isspace (digit_char d) \<and> \<not> int_isspace (digit_char d)"
  by (drule digit_char_cases) (auto simp: digit_char_def isspace_def int_isspace_def)

lemma digits_chars: "c \<in> set (digits n) \<Longrightarrow> \<exists>d<10. c = digit_char d"
proof (induction n rule: digits.induct)
  case (1 n)
  show ?case
  proof (cases "n < 10")
    case True
    with "1.prems" show ?thesis
      by (auto simp: digits.simps [of n])
  next
    case False
    with "1.prems" have "c \<in> set (digits (n div 10)) \<or> c = digit_char (n mod 10)"
      by (auto simp: digits.simps [of n])
    then show ?thesis
    proof
      assume "c \<in> set (digits (n div 10))"
      with False "1.IH" show ?thesis by simp
    next
      assume "c = digit_char (n mod 10)"
      moreover have "n mod 10 < 10" by simp
      ultimately show ?thesis by blast
    qed
  qed
qed

lemma digits_nonempty: "digits n \<noteq> []"
  by (simp add: digits.simps [of n])

lemma digits_value_digit:
  "d < 10 \<Longrightarrow> digits_value acc (digit_char d # rest) = digits_value (10 * acc + d) rest"
  using digit_char_plain [of d] by (simp add: digit_val_digit_char)

lemma digits_value_digits:
  "digits_value acc (digits n @ rest) = digits_value (acc * 10 ^ length (digits n) + n) rest"
proof (induction n arbitrary: acc rest rule: digits.induct)
  case (1 n)
  show ?case
  proof (cases "n < 10")
    case True
    then show ?thesis
      using digits_value_digit [of n acc rest]
      by (simp add: digits.simps [of n] mult.commute del: digits_value.simps)
  next
    case False
    have m: "n mod 10 < 10" by simp
    have d: "digits n = digits (n div 10) @ [digit_char (n mod 10)]"
      using False by (simp add: digits.simps [of n])
    have "digits_value acc (digits n @ rest)
            = digits_value acc (digits (n div 10) @ digit_char (n mod 10) # rest)"
      by (simp add: d)
    also have "\<dots> = digits_value (acc * 10 ^ length (digits (n div 10)) + n div 10)
                      (digit_char (n mod 10) # rest)"
      using False by (rule "1.IH")
    also have "\<dots> = digits_value (10 * (acc * 10 ^ length (digits (n div 10)) + n div 10)
                              + n mod 10) rest"
      using m by (rule digits_value_digit)
    also have "10 * (acc * 10 ^ length (digits (n div 10)) + n div 10) + n mod 10
                 = acc * 10 ^ length (digits n) + n"
      by (simp add: d algebra_simps)
    finally show ?thesis .
  qed
qed

lemma digits_no_underscore: "filter (\<lambda>c. c \<noteq> CHR ''_'') (digits n) = digits n"
proof -
  have "c \<noteq> CHR ''_''" if "c \<in> set (digits n)" for c
  proof -
    from that obtain d where "d < 10" "c = digit_char d"
      using digits_chars by blast
    then show ?thesis
      using digit_char_plain [of d] by simp
  qed
  then show ?thesis by simp
qed

lemma nat_of_str_digits:
  assumes "digits_allowed X (length (digits n))"
  shows "nat_of_str X (digits n) = Some n"
proof -
  obtain c r where cr: "digits n = c # r"
    using digits_nonempty [of n] by (cases "digits n") auto
  then have "c \<in> set (digits n)" by simp
  then obtain d where "d < 10" "c = digit_char d"
    using digits_chars by blast
  then have "c \<noteq> CHR ''_''"
    using digit_char_plain [of d] by simp
  moreover have "digits_value 0 (digits n) = Some n"
    using digits_value_digits [of 0 n "[]"] by simp
  moreover have "digits_allowed X (length (filter (\<lambda>c. c \<noteq> CHR ''_'') (digits n)))"
    using assms by (simp only: digits_no_underscore)
  ultimately show ?thesis
    unfolding nat_of_str_def cr [symmetric] by (simp add: cr)
qed

lemma int_strip_plain:
  assumes "\<forall>c\<in>set s. \<not> int_isspace c"
  shows "int_strip s = s"
proof -
  have "dropWhile int_isspace s = s"
    using assms by (cases s) auto
  moreover have "dropWhile int_isspace (rev s) = rev s"
    using assms by (cases "rev s") auto
  ultimately show ?thesis
    by (simp add: int_strip_def)
qed

lemma digits_no_space: "\<forall>c\<in>set (digits n). \<not> int_isspace c"
  using digits_chars digit_char_plain by blast

lemma int_of_str_str_int:
  assumes "str_int X i = Inr s"
  shows "int_of_str X s = Some i"
proof (cases "i < 0")
  case True
  from assms have a: "digits_allowed X (length (digits (nat \<bar>i\<bar>)))"
    by (simp add: str_int_def split: if_splits)
  with assms True have s: "s = CHR ''-'' # digits (nat (- i))"
    by (simp add: str_int_def)
  have n: "nat \<bar>i\<bar> = nat (- i)"
    using True by simp
  have "\<forall>c\<in>set (CHR ''-'' # digits (nat (- i))). \<not> int_isspace c"
    using digits_no_space by (simp add: int_isspace_def)
  then have "int_strip (CHR ''-'' # digits (nat (- i))) = CHR ''-'' # digits (nat (- i))"
    by (rule int_strip_plain)
  moreover have "nat_of_str X (digits (nat (- i))) = Some (nat (- i))"
    using a n by (simp add: nat_of_str_digits)
  ultimately show ?thesis
    using True by (simp add: int_of_str_def s)
next
  case False
  from assms have a: "digits_allowed X (length (digits (nat \<bar>i\<bar>)))"
    by (simp add: str_int_def split: if_splits)
  with assms False have s: "s = digits (nat i)"
    by (simp add: str_int_def)
  have n: "nat \<bar>i\<bar> = nat i"
    using False by simp
  obtain c r where cr: "digits (nat i) = c # r"
    using digits_nonempty [of "nat i"] by (cases "digits (nat i)") auto
  then have "c \<in> set (digits (nat i))" by simp
  then obtain d where "d < 10" "c = digit_char d"
    using digits_chars by blast
  then have c: "c \<noteq> CHR ''-''" "c \<noteq> CHR ''+''"
    using digit_char_plain [of d] by simp_all
  have "int_strip (digits (nat i)) = digits (nat i)"
    using digits_no_space by (rule int_strip_plain)
  moreover have "nat_of_str X (c # r) = Some (nat i)"
    using nat_of_str_digits [of X "nat i"] a n by (simp add: cr)
  ultimately show ?thesis
    using False c by (simp add: int_of_str_def s cr)
qed

lemma find_first_single: "c \<notin> set a \<Longrightarrow> find_first [c] (a @ c # b) = Some (a, b)"
  by (induction a) (auto simp: startswith_def)

lemma str_split_records:
  "\<forall>r\<in>set rs. CHR 0x00 \<notin> set r
   \<Longrightarrow> str_split [CHR 0x00] (concat (map (\<lambda>r. r @ [CHR 0x00]) rs)) = rs @ [[]]"
proof (induction rs)
  case Nil
  show ?case by (simp add: str_split.simps [of _ "[]"])
next
  case (Cons r rs)
  then have "find_first [CHR 0x00] (r @ CHR 0x00 # concat (map (\<lambda>r. r @ [CHR 0x00]) rs))
               = Some (r, concat (map (\<lambda>r. r @ [CHR 0x00]) rs))"
    by (intro find_first_single) simp
  with Cons show ?case
    by (simp add: str_split.simps [of _ "r @ CHR 0x00 # concat (map (\<lambda>r. r @ [CHR 0x00]) rs)"])
qed

lemma str_int_plain:
  assumes "str_int X i = Inr s"
  shows "CHR 0x00 \<notin> set s"
proof -
  have "CHR 0x00 \<notin> set (digits n)" for n
  proof
    assume "CHR 0x00 \<in> set (digits n)"
    then obtain d where "d < 10" "CHR 0x00 = digit_char d"
      using digits_chars by blast
    with digit_char_plain [of d] show False by simp
  qed
  with assms show ?thesis
    by (auto simp: str_int_def split: if_splits)
qed

lemma array_item_str:
  assumes "array_item X x"
  shows "\<exists>p s. base_types_translation x = Some p \<and> py_str X x = Inr s
           \<and> array_record X x = p @ ''::'' @ s"
  using assms by (cases x) (auto simp: array_record_def str_int_def)

lemma array_record_plain:
  assumes "array_item X x"
  shows "CHR 0x00 \<notin> set (array_record X x) \<and> array_record X x \<noteq> []"
proof (cases x)
  case (PInt i)
  with assms obtain s where s: "str_int X i = Inr s"
    by (auto simp: str_int_def)
  then have "CHR 0x00 \<notin> set s"
    by (rule str_int_plain)
  with PInt s show ?thesis
    by (simp add: array_record_def)
qed (use assms in \<open>auto simp: array_record_def\<close>)

lemma Array_encode_loop_records:
  "\<forall>x\<in>set xs. array_item X x
   \<Longrightarrow> Array_encode_loop X chain xs
         = Inr (chain @ concat (map (\<lambda>r. r @ [CHR 0x00]) (map (array_record X) xs)))"
proof (induction xs arbitrary: chain)
  case Nil
  show ?case by simp
next
  case (Cons x xs)
  then have "array_item X x" by simp
  then obtain p s where p: "base_types_translation x = Some p" "py_str X x = Inr s"
      "array_record X x = p @ ''::'' @ s"
    using array_item_str by blast
  with Cons show ?case
    by (simp add: items_sep_def)
qed

lemma Array_decode_item_record:
  assumes "array_item X x"
  shows "Array_decode_item X (array_record X x) = Inr (array_back x)"
proof (cases x)
  case (PBool b)
  then show ?thesis
    by (cases b) (simp_all add: array_record_def Array_decode_item_def str_split1_def
        startswith_def)
next
  case (PInt i)
  with assms obtain s where s: "str_int X i = Inr s"
    by (auto simp: str_int_def)
  then have "int_of_str X s = Some i"
    by (rule int_of_str_str_int)
  with PInt s show ?thesis
    by (simp add: array_record_def Array_decode_item_def str_split1_def startswith_def)
next
  case (PStr s)
  then show ?thesis
    by (simp add: array_record_def Array_decode_item_def str_split1_def startswith_def)
next
  case (PFloat f)
  with assms show ?thesis
    by (simp add: array_record_def Array_decode_item_def str_split1_def startswith_def)
qed (use assms in simp_all)

lemma Array_decode_loop_records:
  "\<forall>x\<in>set xs. array_item X x
   \<Longrightarrow> Array_decode_loop X seq (map (array_record X) xs @ [[]]) = Inr (seq @ map array_back xs)"
proof (induction xs arbitrary: seq)
  case Nil
  show ?case by simp
next
  case (Cons x xs)
  then have x: "array_item X x" by simp
  from array_record_plain [OF x] Array_decode_item_record [OF x] Cons show ?case
    by simp
qed

lemma Array_roundtrip:
  assumes "\<forall>x\<in>set xs. array_item X x"
  shows "\<exists>low. Array_encode X (PList xs) = Inr low
           \<and> Array_decode X low = Inr (PList (map array_back xs))"
proof -
  let ?rs = "map (array_record X) xs"
  have e: "Array_encode X (PList xs) = Inr (PStr (concat (map (\<lambda>r. r @ [CHR 0x00]) ?rs)))"
    using Array_encode_loop_records [OF assms, of "[]"] by (simp add: Array_encode_def)
  have "\<forall>r\<in>set ?rs. CHR 0x00 \<notin> set r"
    using assms array_record_plain by auto
  then have "str_split [CHR 0x00] (concat (map (\<lambda>r. r @ [CHR 0x00]) ?rs)) = ?rs @ [[]]"
    by (rule str_split_records)
  then have "Array_decode X (PStr (concat (map (\<lambda>r. r @ [CHR 0x00]) ?rs)))
               = Inr (PList (map array_back xs))"
    using Array_decode_loop_records [OF assms, of "[]"]
    by (simp add: Array_decode_def items_sep_def)
  with e show ?thesis by blast
qed

text \<open>
  Claim C1: for every variant and every value its encode accepts, decode (encode x) = x,
  in particular for arrays of booleans, strings, integers and floats.

  The Array variant breaks it for booleans. \<^verbatim>\<open>Array.encode([False])\<close> writes the element as
  \<^verbatim>\<open>str(False)\<close>, the text \<^verbatim>\<open>False\<close>, and \<^verbatim>\<open>Array.decode\<close> reads it back with
  \<^verbatim>\<open>bool("False")\<close>, which is true of every non-empty text: the list comes back as
  \<^verbatim>\<open>[True]\<close>, on every host. The Boolean variant does not have the defect: it writes
  \<^verbatim>\<open>1\<close> and \<^verbatim>\<open>0\<close> (\<open>Boolean_roundtrip\<close>).
\<close>

theorem Array_roundtrip_False:
  "Array_encode X (PList [PBool False]) = Inr (PStr (''B::False'' @ [CHR 0x00]))
   \<and> Array_decode X (PStr (''B::False'' @ [CHR 0x00])) = Inr (PList [PBool True])"
  by (simp add: Array_encode_def Array_decode_def str_split.simps items_sep_def
      Array_decode_item_def str_split1_def startswith_def)

text \<open>
  Claim C9: every variant is reachable in the alias table under a full-word, a short-word
  and a single-letter name; in particular \<^verbatim>\<open>integer\<close> resolves to the Integer variant.

  The table spells the full word \<^verbatim>\<open>interger\<close>, so \<^verbatim>\<open>integer\<close> is no key of it and a header
  line \<^verbatim>\<open>a: integer\<close> is refused; and no alias of the table leads to DateTime.
\<close>

theorem integer_alias_unknown:
  "dict_get ANNOTATIONS_TABLE ''integer'' = None
   \<and> dict_get ANNOTATIONS_TABLE ''interger'' = Some Integer
   \<and> parse_header ''a: integer''
       = Inl (ParseError (''Invalid data type found for: a ('' @ [dq] @ ''integer'' @ [dq] @ '')''))
   \<and> DateTime \<notin> snd ` set ANNOTATIONS_TABLE"
  by code_simp

section \<open>Parsing\<close>

text \<open>
  Claim C2: parsing fails with a parse error exactly when the token \<^verbatim>\<open>@@\<close> is absent, and
  a document that holds it more than once still parses, split at the first occurrence.

  \<^verbatim>\<open>_parse\<close> splits at every occurrence and unpacks two parts, so a document with a second
  \<^verbatim>\<open>@@\<close> raises ValueError, whatever the reader and the backing location are.
\<close>

theorem parse_second_separator:
  "parse X ''a: int\<newline>@@\<newline>a\<newline>1\<newline>@@\<newline>'' fp = Inl ValueError"
  by (simp add: parse_def contains_def startswith_def str_split.simps)

lemma find_first_absent: "c \<notin> set s \<Longrightarrow> find_first [c] s = None"
  by (induction s) (auto simp: startswith_def)

lemma parse_header_line_without_separator:
  assumes "line \<noteq> []" "CHR '':'' \<notin> set line"
  shows "parse_header_loop ann (line # rest) = Inl ValueError"
  using assms by (simp add: str_split.simps [of "'':''" line] find_first_absent)

text \<open>
  Claim C3: a non-empty header line that misses the separator \<^verbatim>\<open>:\<close>, and a line whose
  alias is unknown, fail with a ParseError that names the column and the alias.

  The unknown alias does (the message shows the alias stripped and in lower case); the
  line without a separator fails the unpacking of \<^verbatim>\<open>annotation.split(":")\<close> instead, which
  is a ValueError, and so does every non-empty line without one that the loop reaches
  (\<open>parse_header_line_without_separator\<close>).
\<close>

theorem parse_header_missing_separator:
  "parse_header ''a int'' = Inl ValueError
   \<and> parse_header ''a: Foo''
       = Inl (ParseError (''Invalid data type found for: a ('' @ [dq] @ ''foo'' @ [dq] @ '')''))"
  by code_simp

subsection \<open>Coverage\<close>

lemma not_annotated_cases:
  "(not_annotated ann fs = Inr () \<and> set fs \<subseteq> set (dict_keys ann))
   \<or> (\<exists>f. f \<in> set fs \<and> f \<notin> set (dict_keys ann)
        \<and> not_annotated ann fs
            = Inl (AnnotationCoverageError (''Not annotated field: '' @ [dq] @ f @ [dq])))"
  by (induction fs) (auto simp: dict_has_def)

lemma annotated_invalid_cases:
  "(annotated_invalid fs ks = Inr () \<and> set ks \<subseteq> set fs)
   \<or> (\<exists>a. a \<in> set ks \<and> a \<notin> set fs
        \<and> annotated_invalid fs ks
            = Inl (AnnotationCoverageError (''Annotated invalid field: '' @ [dq] @ a @ [dq])))"
  by (induction ks) auto

lemma str_split_two_contains:
  assumes "str_split sep s = [a, b]"
  shows "contains s sep"
  using assms by (auto simp: contains_def str_split.simps [of sep s] split: if_splits option.splits)

text \<open>
  The coverage check on a document that splits at \<^verbatim>\<open>@@\<close> into a header and a grid, whose
  header parses, and whose grid gives the reader a field list \<open>fs\<close> and rows: when the fields and
  the annotated columns differ, \<open>parse\<close> fails with the AnnotationCoverageError that
  names a field of the difference; when they are the same, it returns the aggregate.
\<close>

lemma coverage_check:
  assumes "str_split ''@@'' raw_content = [header, raw_data]"
      and "parse_header (strip header) = Inr ann"
      and "csv_fieldnames X (strip raw_data) = Inr (Some fs)"
      and "csv_rows X (strip raw_data) = Inr rows"
  shows "(set fs \<noteq> set (dict_keys ann) \<longrightarrow>
            (\<exists>f. (f \<in> set fs \<and> f \<notin> set (dict_keys ann)
                   \<and> parse X raw_content fp
                       = Inl (AnnotationCoverageError (''Not annotated field: '' @ [dq] @ f @ [dq])))
               \<or> (f \<in> set (dict_keys ann) \<and> f \<notin> set fs
                   \<and> parse X raw_content fp
                       = Inl (AnnotationCoverageError
                               (''Annotated invalid field: '' @ [dq] @ f @ [dq])))))
       \<and> (set fs = set (dict_keys ann) \<longrightarrow>
            parse X raw_content fp
              = Inr \<lparr>annotations = ann, fields' = fs, enc_rows = rows,
                     file_path = fp, raw_header = Some header\<rparr>)"
proof -
  have c: "contains raw_content ''@@''"
    using assms(1) by (rule str_split_two_contains)
  have p: "parse X raw_content fp =
    (case ensure_types_coverage (Some fs) ann of
       Inl e \<Rightarrow> Inl e
     | Inr u \<Rightarrow> Inr \<lparr>annotations = ann, fields' = fs, enc_rows = rows,
                     file_path = fp, raw_header = Some header\<rparr>)"
    using c assms by (simp add: parse_def split: sum.split)
  show ?thesis
  proof (cases "set fs \<subseteq> set (dict_keys ann)")
    case False
    with not_annotated_cases [of ann fs] obtain f where
      "f \<in> set fs" "f \<notin> set (dict_keys ann)"
      "not_annotated ann fs
         = Inl (AnnotationCoverageError (''Not annotated field: '' @ [dq] @ f @ [dq]))"
      by blast
    with False show ?thesis
      unfolding p by (auto simp: ensure_types_coverage_def)
  next
    case sub: True
    with not_annotated_cases [of ann fs] have n: "not_annotated ann fs = Inr ()"
      by auto
    show ?thesis
    proof (cases "set (dict_keys ann) \<subseteq> set fs")
      case True
      with annotated_invalid_cases [of fs "dict_keys ann"]
      have "annotated_invalid fs (dict_keys ann) = Inr ()" by auto
      with n sub True show ?thesis
        unfolding p by (auto simp: ensure_types_coverage_def)
    next
      case False
      with annotated_invalid_cases [of fs "dict_keys ann"] obtain a where
        "a \<in> set (dict_keys ann)" "a \<notin> set fs"
        "annotated_invalid fs (dict_keys ann)
           = Inl (AnnotationCoverageError (''Annotated invalid field: '' @ [dq] @ a @ [dq]))"
        by blast
      with n False show ?thesis
        unfolding p by (auto simp: ensure_types_coverage_def)
    qed
  qed
qed

lemma coverage_check_example:
  "parse example_host example_text (Some ''t.scsv'') = Inr example_store
   \<and> parse example_host ''a: int\<newline>@@\<newline>a,b\<newline>1,2'' None
       = Inl (AnnotationCoverageError (''Not annotated field: '' @ [dq] @ ''b'' @ [dq]))"
proof -
  have s: "str_split ''@@'' example_text
             = [''a: int\<newline>b: str\<newline>c: arr\<newline>'', ''\<newline>a,b,c\<newline>1,x,\<newline>2,y,\<newline>'']"
    by code_simp
  have h: "parse_header (strip ''a: int\<newline>b: str\<newline>c: arr\<newline>'')
             = Inr [(''a'', Integer), (''b'', String), (''c'', Array)]"
    by code_simp
  have f: "csv_fieldnames example_host (strip ''\<newline>a,b,c\<newline>1,x,\<newline>2,y,\<newline>'')
             = Inr (Some [''a'', ''b'', ''c''])"
    by code_simp
  have r: "csv_rows example_host (strip ''\<newline>a,b,c\<newline>1,x,\<newline>2,y,\<newline>'')
             = Inr (enc_rows example_store)"
    by code_simp
  have 1: "parse example_host example_text (Some ''t.scsv'') = Inr example_store"
    using coverage_check [OF s h f r, of "Some ''t.scsv''"]
    by (simp add: dict_keys_def example_store_def)
  have s2: "str_split ''@@'' ''a: int\<newline>@@\<newline>a,b\<newline>1,2'' = [''a: int\<newline>'', ''\<newline>a,b\<newline>1,2'']"
    by code_simp
  have h2: "parse_header (strip ''a: int\<newline>'') = Inr [(''a'', Integer)]"
    by code_simp
  have f2: "csv_fieldnames example_host (strip ''\<newline>a,b\<newline>1,2'') = Inr (Some [''a'', ''b''])"
    by code_simp
  have r2: "csv_rows example_host (strip ''\<newline>a,b\<newline>1,2'')
              = Inr [[(Some ''a'', PStr ''1''), (Some ''b'', PStr ''2'')]]"
    by code_simp
  have 2: "parse example_host ''a: int\<newline>@@\<newline>a,b\<newline>1,2'' None
       = Inl (AnnotationCoverageError (''Not annotated field: '' @ [dq] @ ''b'' @ [dq]))"
    using coverage_check [OF s2 h2 f2 r2, of None]
    by (auto simp: dict_keys_def)
  from 1 2 show ?thesis by simp
qed

text \<open>
  Claim C4: for every document whose header parses, a grid field that is not annotated or
  an annotated column that is no grid field fails the parse with an
  AnnotationCoverageError naming it, and the parse returns the aggregate when the two
  sets are the same.

  \<open>coverage_check\<close> is that claim for a grid with a first line. A grid without one has no
  field list: \<^verbatim>\<open>reader.fieldnames\<close> is \<^verbatim>\<open>None\<close>, and \<^verbatim>\<open>for field in fields\<close> raises a
  TypeError. So the header \<^verbatim>\<open>a: int\<close> over an empty grid is not refused for its uncovered
  column \<^verbatim>\<open>a\<close>, and the document \<^verbatim>\<open>@@\<close>, where both sets are empty, does not parse.
\<close>

theorem parse_empty_grid:
  assumes "csv_fieldnames X [] = Inr None"
  shows "parse X ''a: int\<newline>@@\<newline>'' fp = Inl TypeError \<and> parse X ''@@'' fp = Inl TypeError"
proof -
  have 1: "str_split ''@@'' ''a: int\<newline>@@\<newline>'' = [''a: int\<newline>'', ''\<newline>'']"
    "contains ''a: int\<newline>@@\<newline>'' ''@@''"
    "parse_header (strip ''a: int\<newline>'') = Inr [(''a'', Integer)]"
    "strip ''\<newline>'' = []"
    by code_simp+
  have 2: "str_split ''@@'' ''@@'' = [[], []]" "contains ''@@'' ''@@''"
    "parse_header [] = Inr []" "strip [] = []"
    by code_simp+
  from assms show ?thesis
    by (simp add: parse_def 1 2 ensure_types_coverage_def)
qed

theorem parse_empty_grid_witness:
  "parse example_host ''a: int\<newline>@@\<newline>'' None = Inl TypeError
   \<and> parse example_host ''@@'' None = Inl TypeError"
proof -
  have "csv_fieldnames example_host [] = Inr None"
    by code_simp
  then show ?thesis by (rule parse_empty_grid)
qed


section \<open>The row store\<close>

subsection \<open>The index\<close>

lemma validate_index_valid:
  assumes "index_value index = Some k" "0 \<le> k" "k < int (length (enc_rows self))"
  shows "validate_index X self index = Inr (nat k)"
  using assms by (simp add: validate_index_def)

text \<open>
  An index that is no int, and an int outside the range that prints: \<open>read\<close> returns
  \<^verbatim>\<open>None\<close>, and the three mutators raise the IndexError of \<^verbatim>\<open>_validate_index\<close> and leave
  the object and the files as they were.
\<close>

lemma index_out_of_range:
  assumes "index_value index = None \<or>
     (\<exists>k s. index_value index = Some k \<and> (k < 0 \<or> int (length (enc_rows self)) \<le> k)
        \<and> py_str X index = Inr s)"
  shows "\<exists>m. validate_index X self index = Inl (IndexError m)
    \<and> read X self index = Inr None
    \<and> update_row X index row_data (self, fs) = (Inl (IndexError m), self, fs)
    \<and> update_field X index col val (self, fs) = (Inl (IndexError m), self, fs)
    \<and> remove_row X index (self, fs) = (Inl (IndexError m), self, fs)"
proof -
  from assms obtain m where "validate_index X self index = Inl (IndexError m)"
    by (auto simp: validate_index_def)
  then show ?thesis by (simp add: read_def)
qed

lemma index_out_of_range_example:
  "read example_host example_store (PInt 2) = Inr None
   \<and> read example_host example_store (PStr ''0'') = Inr None
   \<and> update_row example_host (PInt 2) [(Some ''a'', PInt 5)] (example_store, Map.empty)
       = (Inl (IndexError ''Invalid row index: 2. Total rows in object = 2''),
          example_store, Map.empty)
   \<and> remove_row example_host (PInt (- 1)) (example_store, Map.empty)
       = (Inl (IndexError ''Invalid row index: -1. Total rows in object = 2''),
          example_store, Map.empty)
   \<and> update_field example_host PNone (Some ''a'') (PInt 5) (example_store, Map.empty)
       = (Inl (IndexError (''Invalid index type: <class '' @ [CHR 0x27] @ ''NoneType''
                 @ [CHR 0x27] @ ''>.'')),
          example_store, Map.empty)"
proof -
  have v: "validate_index example_host example_store (PInt 2)
             = Inl (IndexError ''Invalid row index: 2. Total rows in object = 2'')"
    "validate_index example_host example_store (PStr ''0'')
       = Inl (IndexError (''Invalid index type: <class '' @ [CHR 0x27] @ ''str''
                 @ [CHR 0x27] @ ''>.''))"
    "validate_index example_host example_store (PInt (- 1))
       = Inl (IndexError ''Invalid row index: -1. Total rows in object = 2'')"
    "validate_index example_host example_store PNone
       = Inl (IndexError (''Invalid index type: <class '' @ [CHR 0x27] @ ''NoneType''
                 @ [CHR 0x27] @ ''>.''))"
    by code_simp+
  show ?thesis
    by (simp add: read_def v)
qed

text \<open>The decimal text of a number from \<open>10 ^ k\<close> on has more than \<open>k\<close> digits.\<close>

lemma digits_length: "10 ^ k \<le> n \<Longrightarrow> k < length (digits n)"
proof (induction n arbitrary: k rule: digits.induct)
  case (1 n)
  show ?case
  proof (cases "n < 10")
    case True
    have "k = 0"
    proof (rule ccontr)
      assume "k \<noteq> 0"
      then have "(10::nat) ^ 1 \<le> 10 ^ k"
        by (intro power_increasing) simp_all
      with "1.prems" True show False by simp
    qed
    then show ?thesis
      by (simp add: digits.simps [of n])
  next
    case False
    then have d: "length (digits n) = Suc (length (digits (n div 10)))"
      by (simp add: digits.simps [of n])
    show ?thesis
    proof (cases k)
      case 0
      with d show ?thesis by simp
    next
      case (Suc j)
      with "1.prems" have "10 * 10 ^ j \<le> n" by simp
      then have "10 ^ j \<le> n div 10" by simp
      with False have "j < length (digits (n div 10))"
        by (intro "1.IH") simp_all
      with d Suc show ?thesis by simp
    qed
  qed
qed

lemma str_int_too_long:
  assumes "0 < int_max_str_digits X" "10 ^ int_max_str_digits X \<le> \<bar>k\<bar>"
  shows "str_int X k = Inl ValueError"
proof -
  have "int ((10::nat) ^ int_max_str_digits X) \<le> \<bar>k\<bar>"
    using assms(2) by simp
  then have "(10::nat) ^ int_max_str_digits X \<le> nat \<bar>k\<bar>"
    by (simp only: le_nat_iff [OF abs_ge_zero])
  then have "int_max_str_digits X < length (digits (nat \<bar>k\<bar>))"
    by (rule digits_length)
  with assms(1) show ?thesis
    by (simp add: str_int_def digits_allowed_def)
qed

text \<open>
  Claim C5: for an index outside \<open>[0, rowCount)\<close> (or one that is no integer), \<open>read\<close>
  returns the absent result \<^verbatim>\<open>None\<close> and does not raise, while \<open>update_row\<close>,
  \<open>update_field\<close> and \<open>remove_row\<close> raise IndexError before anything is encoded or
  written.

  \<^verbatim>\<open>_validate_index\<close> formats the index into the message of its IndexError before it
  raises it. On an interpreter with a limit on the digits of an int, an int outside the
  range with more digits than the limit (from \<open>10 ^ limit\<close> on, or as far below zero) makes
  that formatting raise ValueError: \<open>read\<close>, which catches IndexError only, raises it
  where its docstring promises \<^verbatim>\<open>None\<close> for an invalid index, and the three mutators raise
  it where the docstring of \<^verbatim>\<open>_validate_index\<close> promises IndexError. The object and the
  files are as they were. For every other index outside the range the claim holds
  (\<open>index_out_of_range\<close>).
\<close>

theorem index_too_long:
  assumes "0 < int_max_str_digits X"
      and "10 ^ int_max_str_digits X \<le> \<bar>k\<bar>"
      and "k < 0 \<or> int (length (enc_rows self)) \<le> k"
  shows "read X self (PInt k) = Inl ValueError
    \<and> update_row X (PInt k) row_data (self, fs) = (Inl ValueError, self, fs)
    \<and> update_field X (PInt k) col val (self, fs) = (Inl ValueError, self, fs)
    \<and> remove_row X (PInt k) (self, fs) = (Inl ValueError, self, fs)"
proof -
  have "str_int X k = Inl ValueError"
    using assms(1,2) by (rule str_int_too_long)
  with assms(3) have "validate_index X self (PInt k) = Inl ValueError"
    by (auto simp: validate_index_def)
  then show ?thesis by (simp add: read_def)
qed

theorem index_too_long_witness:
  "read example_host example_store (PInt (10 ^ 4300)) = Inl ValueError
    \<and> update_row example_host (PInt (10 ^ 4300)) [(Some ''a'', PInt 5)] (example_store, Map.empty)
        = (Inl ValueError, example_store, Map.empty)
    \<and> update_field example_host (PInt (10 ^ 4300)) (Some ''a'') (PInt 5)
          (example_store, Map.empty)
        = (Inl ValueError, example_store, Map.empty)
    \<and> remove_row example_host (PInt (10 ^ 4300)) (example_store, Map.empty)
        = (Inl ValueError, example_store, Map.empty)"
proof -
  have e: "int_max_str_digits example_host = 4300"
    by (simp add: example_host_def)
  have 1: "0 < int_max_str_digits example_host"
    by (simp add: example_host_def)
  have 2: "(10::int) ^ int_max_str_digits example_host \<le> \<bar>10 ^ 4300\<bar>"
    unfolding e by (rule abs_ge_self)
  have l: "int (length (enc_rows (example_store :: (unit, unit) SCSVObject))) = 2"
    by (simp add: example_store_def)
  have a: "(2::int) \<le> 10"
    by simp
  have b: "(10::int) \<le> 10 ^ 4300"
    by (rule self_le_power) simp_all
  from a b have "(2::int) \<le> 10 ^ 4300"
    by (rule order_trans)
  then have "int (length (enc_rows (example_store :: (unit, unit) SCSVObject))) \<le> 10 ^ 4300"
    by (simp only: l)
  then have 3: "(10::int) ^ 4300 < 0
      \<or> int (length (enc_rows (example_store :: (unit, unit) SCSVObject))) \<le> 10 ^ 4300"
    by (rule disjI2)
  from 1 2 3 show ?thesis
    by (rule index_too_long)
qed

subsection \<open>Encoding a row\<close>

lemma dict_set_absent: "k \<notin> set (dict_keys d) \<Longrightarrow> dict_set k v d = d @ [(k, v)]"
  by (induction d) (auto simp: dict_keys_def)

lemma has_get_annotation: "has_annotation ann c \<longleftrightarrow> get_annotation ann c \<noteq> None"
  by (cases c) (simp_all add: has_annotation_def get_annotation_def dict_has_get)

lemma encode_row_loop_unknown:
  assumes "\<not> has_annotation ann col"
  shows "encode_row_loop X ann casted ((col, val) # post)
           = Inl (UpdateError (''Invalid column: '' @ key_str col))"
  using assms by simp

lemma encode_row_loop_value:
  assumes "get_annotation ann c = Some t" "encode X t x = Inl err"
  shows "encode_row_loop X ann casted ((c, x) # rest) = Inl err"
  using assms by (simp add: has_get_annotation)

lemma encode_row_loop_append:
  assumes "\<forall>(c, x)\<in>set pre. \<exists>t low. get_annotation ann c = Some t \<and> encode X t x = Inr low"
  shows "\<exists>casted'. encode_row_loop X ann casted (pre @ rest)
           = encode_row_loop X ann casted' rest"
  using assms
proof (induction pre arbitrary: casted)
  case Nil
  show ?case by auto
next
  case (Cons p pre)
  obtain col val where p: "p = (col, val)" by (cases p)
  from Cons.prems obtain t low where t: "get_annotation ann col = Some t"
      "encode X t val = Inr low"
    by (auto simp: p)
  from Cons.prems have
    "\<forall>(c, x)\<in>set pre. \<exists>t low. get_annotation ann c = Some t \<and> encode X t x = Inr low"
    by simp
  from Cons.IH [OF this, of "dict_set col low casted"] t show ?case
    by (simp add: p has_get_annotation)
qed

lemma encode_row_loop_fails:
  assumes "\<forall>(c, x)\<in>set pre. has_annotation ann c" "\<not> has_annotation ann col"
  shows "\<exists>e. encode_row_loop X ann casted (pre @ (col, val) # post) = Inl e"
  using assms
proof (induction pre arbitrary: casted)
  case Nil
  then show ?case by simp
next
  case (Cons p pre)
  obtain c x where p: "p = (c, x)" by (cases p)
  from Cons.prems have r: "\<forall>(c, x)\<in>set pre. has_annotation ann c"
    by simp
  from Cons.prems have "has_annotation ann c"
    by (simp add: p)
  then obtain t where t: "get_annotation ann c = Some t"
    by (auto simp: has_get_annotation)
  show ?case
  proof (cases "encode X t x")
    case (Inl err)
    with t show ?thesis
      by (simp add: p has_get_annotation)
  next
    case (Inr low)
    from Cons.IH [OF r Cons.prems(2), of "dict_set c low casted"] t Inr show ?thesis
      by (simp add: p has_get_annotation)
  qed
qed

lemma encode_row_loop_ok:
  assumes "\<forall>(c, x)\<in>set data. \<exists>t low. get_annotation ann c = Some t \<and> encode X t x = Inr low"
  shows "\<exists>enc. encode_row_loop X ann casted data = Inr enc"
  using encode_row_loop_append [OF assms, of casted "[]"] by simp

lemma encode_row_loop_distinct:
  assumes "encode_row_loop X ann casted data = Inr enc"
      and "distinct (dict_keys data)"
      and "set (dict_keys casted) \<inter> set (dict_keys data) = {}"
  shows "\<exists>new. enc = casted @ new \<and> list_all2 (encodes_to X ann) data new"
  using assms
proof (induction data arbitrary: casted)
  case Nil
  then show ?case by simp
next
  case (Cons p data)
  obtain col val where p: "p = (col, val)" by (cases p)
  from Cons.prems(1) obtain t low where
    t: "get_annotation ann col = Some t" "encode X t val = Inr low"
    and r: "encode_row_loop X ann (dict_set col low casted) data = Inr enc"
    by (auto simp: p split: if_splits option.splits sum.splits)
  from Cons.prems(3) have "col \<notin> set (dict_keys casted)"
    by (auto simp: p dict_keys_def)
  then have s: "dict_set col low casted = casted @ [(col, low)]"
    by (rule dict_set_absent)
  from Cons.prems(2,3) have d: "distinct (dict_keys data)"
    "set (dict_keys (casted @ [(col, low)])) \<inter> set (dict_keys data) = {}"
    by (auto simp: p dict_keys_def)
  from Cons.IH [OF r [unfolded s] d] obtain new where
    "enc = (casted @ [(col, low)]) @ new" "list_all2 (encodes_to X ann) data new"
    by blast
  moreover from t have "encodes_to X ann (col, val) (col, low)"
    by (simp add: encodes_to_def)
  ultimately show ?case
    by (auto simp: p intro!: exI [of _ "(col, low) # new"])
qed

lemma dict_keys_dict_set:
  "set (dict_keys (dict_set k v d)) = insert k (set (dict_keys d))"
  by (induction d) (force simp: dict_keys_def)+

lemma encode_row_loop_keys:
  "encode_row_loop X ann casted data = Inr enc
   \<Longrightarrow> set (dict_keys enc) = set (dict_keys casted) \<union> set (dict_keys data)"
proof (induction data arbitrary: casted)
  case Nil
  then show ?case by (simp add: dict_keys_def)
next
  case (Cons p data)
  obtain col val where p: "p = (col, val)" by (cases p)
  from Cons.prems obtain low where
    "encode_row_loop X ann (dict_set col low casted) data = Inr enc"
    by (auto simp: p split: if_splits option.splits sum.splits)
  from Cons.IH [OF this] have
    "set (dict_keys enc) = insert col (set (dict_keys casted)) \<union> set (dict_keys data)"
    by (simp add: dict_keys_dict_set)
  moreover have "set (dict_keys (p # data)) = insert col (set (dict_keys data))"
    by (simp add: p dict_keys_def)
  ultimately show ?case by blast
qed


lemma update_row_encoded:
  assumes "validate_index X self index = Inr i" "encode_row X self row_data = Inr enc"
  shows "update_row X index row_data (self, fs)
           = (fst (save X (self\<lparr>enc_rows := (enc_rows self)[i := enc]\<rparr>) fs),
              self\<lparr>enc_rows := (enc_rows self)[i := enc]\<rparr>,
              snd (save X (self\<lparr>enc_rows := (enc_rows self)[i := enc]\<rparr>) fs))"
  using assms by (simp add: Let_def)





text \<open>
  Claim C6: when the input row has a column that is not annotated, \<open>update_row\<close> (at a
  valid index) and \<open>insert_row\<close> fail with the unknown-column UpdateError and the store
  is unchanged; when every column is annotated and every value encodes, the stored row
  is replaced as a whole before persistence is attempted.

  As amended: with an unknown column, \<open>insert_row\<close> on any store and \<open>update_row\<close> at a
  valid index fail with the same error and leave the object and the files as they were.
  \<^verbatim>\<open>_encode_row\<close> checks and encodes column by column in the order of the input: the error
  is the UpdateError that names the first unknown column when every value in front of
  that column encodes, and otherwise the error that the first value in front of it that
  does not encode raised. When every column is annotated and every value encodes, the
  row at the index becomes the encoded row (its columns are those of the input, and with
  distinct columns each value is the encoding of the input's), and what is saved is the
  object with that row.

  In the statement the input is \<open>pre @ (col, val) # post\<close> with \<open>col\<close> its first unknown
  column, and \<open>good @ (c, x) # rest\<close> splits \<open>pre\<close> at its first value that does not
  encode.
\<close>

theorem update_row_unknown_column:
  "(row_data = pre @ (col, val) # post
      \<and> (\<forall>(c, x)\<in>set pre. has_annotation (annotations self) c)
      \<and> \<not> has_annotation (annotations self) col \<longrightarrow>
      (\<exists>e. insert_row X row_data (self, fs) = (Inl e, self, fs)
         \<and> (index_value index = Some k \<and> 0 \<le> k \<and> k < int (length (enc_rows self))
              \<longrightarrow> update_row X index row_data (self, fs) = (Inl e, self, fs))
         \<and> ((\<forall>(c, x)\<in>set pre. \<exists>t low. get_annotation (annotations self) c = Some t
                  \<and> encode X t x = Inr low)
              \<longrightarrow> e = UpdateError (''Invalid column: '' @ key_str col))
         \<and> (\<forall>good c x rest t err.
               pre = good @ (c, x) # rest
               \<and> (\<forall>(c', x')\<in>set good. \<exists>t low. get_annotation (annotations self) c' = Some t
                     \<and> encode X t x' = Inr low)
               \<and> get_annotation (annotations self) c = Some t \<and> encode X t x = Inl err
               \<longrightarrow> e = err)))
   \<and> ((\<forall>(c, x)\<in>set row_data. \<exists>t low. get_annotation (annotations self) c = Some t
           \<and> encode X t x = Inr low)
        \<and> index_value index = Some k \<and> 0 \<le> k \<and> k < int (length (enc_rows self)) \<longrightarrow>
        (\<exists>enc. encode_row X self row_data = Inr enc
           \<and> set (dict_keys enc) = set (dict_keys row_data)
           \<and> (distinct (dict_keys row_data)
                \<longrightarrow> list_all2 (encodes_to X (annotations self)) row_data enc)
           \<and> update_row X index row_data (self, fs)
               = (fst (save X (self\<lparr>enc_rows := (enc_rows self)[nat k := enc]\<rparr>) fs),
                  self\<lparr>enc_rows := (enc_rows self)[nat k := enc]\<rparr>,
                  snd (save X (self\<lparr>enc_rows := (enc_rows self)[nat k := enc]\<rparr>) fs))))"
proof (intro conjI impI)
  assume a: "row_data = pre @ (col, val) # post
      \<and> (\<forall>(c, x)\<in>set pre. has_annotation (annotations self) c)
      \<and> \<not> has_annotation (annotations self) col"
  then have r: "row_data = pre @ (col, val) # post"
    and p: "\<forall>(c, x)\<in>set pre. has_annotation (annotations self) c"
    and u: "\<not> has_annotation (annotations self) col"
    by blast+
  from encode_row_loop_fails [OF p u, of X "[]" val post] obtain e where
    e: "encode_row X self row_data = Inl e"
    by (auto simp: encode_row_def r)
  have i1: "insert_row X row_data (self, fs) = (Inl e, self, fs)"
    using e by simp
  have u1: "index_value index = Some k \<and> 0 \<le> k \<and> k < int (length (enc_rows self))
              \<longrightarrow> update_row X index row_data (self, fs) = (Inl e, self, fs)"
  proof
    assume "index_value index = Some k \<and> 0 \<le> k \<and> k < int (length (enc_rows self))"
    then have "validate_index X self index = Inr (nat k)"
      by (intro validate_index_valid) blast+
    with e show "update_row X index row_data (self, fs) = (Inl e, self, fs)"
      by simp
  qed
  have m: "(\<forall>(c, x)\<in>set pre. \<exists>t low. get_annotation (annotations self) c = Some t
                  \<and> encode X t x = Inr low)
              \<longrightarrow> e = UpdateError (''Invalid column: '' @ key_str col)"
  proof
    assume "\<forall>(c, x)\<in>set pre. \<exists>t low. get_annotation (annotations self) c = Some t
                  \<and> encode X t x = Inr low"
    from encode_row_loop_append [OF this, of "[]" "(col, val) # post"] obtain casted' where
      "encode_row_loop X (annotations self) [] (pre @ (col, val) # post)
         = encode_row_loop X (annotations self) casted' ((col, val) # post)"
      by blast
    also have "\<dots> = Inl (UpdateError (''Invalid column: '' @ key_str col))"
      using u by (rule encode_row_loop_unknown)
    finally show "e = UpdateError (''Invalid column: '' @ key_str col)"
      using e by (simp add: encode_row_def r)
  qed
  have n: "\<forall>good c x rest t err.
               pre = good @ (c, x) # rest
               \<and> (\<forall>(c', x')\<in>set good. \<exists>t low. get_annotation (annotations self) c' = Some t
                     \<and> encode X t x' = Inr low)
               \<and> get_annotation (annotations self) c = Some t \<and> encode X t x = Inl err
               \<longrightarrow> e = err"
  proof (intro allI impI)
    fix good c x rest t err
    assume b: "pre = good @ (c, x) # rest
               \<and> (\<forall>(c', x')\<in>set good. \<exists>t low. get_annotation (annotations self) c' = Some t
                     \<and> encode X t x' = Inr low)
               \<and> get_annotation (annotations self) c = Some t \<and> encode X t x = Inl err"
    then have g: "\<forall>(c', x')\<in>set good. \<exists>t low. get_annotation (annotations self) c' = Some t
                     \<and> encode X t x' = Inr low"
      and t: "get_annotation (annotations self) c = Some t" "encode X t x = Inl err"
      and s: "row_data = good @ (c, x) # (rest @ (col, val) # post)"
      by (simp_all add: r)
    from encode_row_loop_append [OF g, of "[]" "(c, x) # (rest @ (col, val) # post)"]
    obtain casted' where
      "encode_row_loop X (annotations self) [] (good @ (c, x) # (rest @ (col, val) # post))
         = encode_row_loop X (annotations self) casted' ((c, x) # (rest @ (col, val) # post))"
      by blast
    also have "\<dots> = Inl err"
      using t by (rule encode_row_loop_value)
    finally show "e = err"
      using e by (simp add: encode_row_def s)
  qed
  from i1 u1 m n
  show "\<exists>e. insert_row X row_data (self, fs) = (Inl e, self, fs)
         \<and> (index_value index = Some k \<and> 0 \<le> k \<and> k < int (length (enc_rows self))
              \<longrightarrow> update_row X index row_data (self, fs) = (Inl e, self, fs))
         \<and> ((\<forall>(c, x)\<in>set pre. \<exists>t low. get_annotation (annotations self) c = Some t
                  \<and> encode X t x = Inr low)
              \<longrightarrow> e = UpdateError (''Invalid column: '' @ key_str col))
         \<and> (\<forall>good c x rest t err.
               pre = good @ (c, x) # rest
               \<and> (\<forall>(c', x')\<in>set good. \<exists>t low. get_annotation (annotations self) c' = Some t
                     \<and> encode X t x' = Inr low)
               \<and> get_annotation (annotations self) c = Some t \<and> encode X t x = Inl err
               \<longrightarrow> e = err)"
    by (intro exI [of _ e] conjI)
next
  assume b: "(\<forall>(c, x)\<in>set row_data. \<exists>t low. get_annotation (annotations self) c = Some t
           \<and> encode X t x = Inr low)
        \<and> index_value index = Some k \<and> 0 \<le> k \<and> k < int (length (enc_rows self))"
  then have a: "\<forall>(c, x)\<in>set row_data. \<exists>t low. get_annotation (annotations self) c = Some t
           \<and> encode X t x = Inr low"
    by (rule conjunct1)
  from encode_row_loop_ok [OF a, where casted = "[]"] obtain enc where
    enc: "encode_row X self row_data = Inr enc"
    by (auto simp: encode_row_def)
  have k: "set (dict_keys enc) = set (dict_keys row_data)"
    using enc encode_row_loop_keys [of X "annotations self" "[]" row_data enc]
    by (simp add: encode_row_def dict_keys_def)
  have d: "distinct (dict_keys row_data)
             \<longrightarrow> list_all2 (encodes_to X (annotations self)) row_data enc"
    using enc encode_row_loop_distinct [of X "annotations self" "[]" row_data enc]
    by (auto simp: encode_row_def dict_keys_def)
  have v: "validate_index X self index = Inr (nat k)"
    using b by (intro validate_index_valid) blast+
  have "update_row X index row_data (self, fs)
                   = (fst (save X (self\<lparr>enc_rows := (enc_rows self)[nat k := enc]\<rparr>) fs),
                      self\<lparr>enc_rows := (enc_rows self)[nat k := enc]\<rparr>,
                      snd (save X (self\<lparr>enc_rows := (enc_rows self)[nat k := enc]\<rparr>) fs))"
    using v enc by (rule update_row_encoded)
  with enc k d
  show "\<exists>enc. encode_row X self row_data = Inr enc
               \<and> set (dict_keys enc) = set (dict_keys row_data)
               \<and> (distinct (dict_keys row_data)
                    \<longrightarrow> list_all2 (encodes_to X (annotations self)) row_data enc)
               \<and> update_row X index row_data (self, fs)
                   = (fst (save X (self\<lparr>enc_rows := (enc_rows self)[nat k := enc]\<rparr>) fs),
                      self\<lparr>enc_rows := (enc_rows self)[nat k := enc]\<rparr>,
                      snd (save X (self\<lparr>enc_rows := (enc_rows self)[nat k := enc]\<rparr>) fs))"
    by blast
qed

theorem update_row_unknown_column_witness:
  "insert_row example_host [(Some ''zzz'', PInt 1)] (example_store\<lparr>enc_rows := []\<rparr>, Map.empty)
     = (Inl (UpdateError ''Invalid column: zzz''), example_store\<lparr>enc_rows := []\<rparr>, Map.empty)
   \<and> update_row example_host (PInt 0) [(Some ''zzz'', PInt 1), (Some ''c'', PList [PDict []])]
         (example_store, Map.empty)
       = (Inl (UpdateError ''Invalid column: zzz''), example_store, Map.empty)
   \<and> update_row example_host (PInt 0) [(Some ''c'', PList [PDict []]), (Some ''zzz'', PInt 1)]
         (example_store, Map.empty)
       = (Inl ValueError, example_store, Map.empty)
   \<and> fst (snd (update_row example_host (PInt 0) [(Some ''b'', PStr ''q'')]
         (example_store, Map.empty)))
       = example_store\<lparr>enc_rows :=
           [[(Some ''b'', PStr ''q'')],
            [(Some ''a'', PStr ''2''), (Some ''b'', PStr ''y''), (Some ''c'', PStr [])]]\<rparr>"
proof -
  have 1: "insert_row example_host [(Some ''zzz'', PInt 1)]
             (example_store\<lparr>enc_rows := []\<rparr>, Map.empty)
     = (Inl (UpdateError ''Invalid column: zzz''), example_store\<lparr>enc_rows := []\<rparr>, Map.empty)"
    using update_row_unknown_column [where X = example_host and fs = Map.empty
        and self = "example_store\<lparr>enc_rows := []\<rparr>" and row_data = "[(Some ''zzz'', PInt 1)]"
        and pre = "[]" and col = "Some ''zzz''" and val = "PInt 1" and post = "[]"
        and index = "PInt 0" and k = 0]
    by (auto simp: has_annotation_def dict_has_def dict_keys_def example_store_def)
  have 2: "update_row example_host (PInt 0)
             [(Some ''zzz'', PInt 1), (Some ''c'', PList [PDict []])] (example_store, Map.empty)
     = (Inl (UpdateError ''Invalid column: zzz''), example_store, Map.empty)"
    using update_row_unknown_column [where X = example_host and fs = Map.empty
        and self = example_store
        and row_data = "[(Some ''zzz'', PInt 1), (Some ''c'', PList [PDict []])]"
        and pre = "[]" and col = "Some ''zzz''" and val = "PInt 1"
        and post = "[(Some ''c'', PList [PDict []])]"
        and index = "PInt 0" and k = 0]
    by (auto simp: has_annotation_def dict_has_def dict_keys_def example_store_def)
  have h: "[(Some ''c'', PList [PDict []]), (Some ''zzz'', PInt 1 :: (unit, unit) pyval)]
             = [(Some ''c'', PList [PDict []])] @ (Some ''zzz'', PInt 1) # []
      \<and> (\<forall>(c, x)\<in>set [(Some ''c'', PList [PDict []] :: (unit, unit) pyval)].
            has_annotation (annotations (example_store :: (unit, unit) SCSVObject)) c)
      \<and> \<not> has_annotation (annotations (example_store :: (unit, unit) SCSVObject)) (Some ''zzz'')"
    by (simp add: has_annotation_def dict_has_def dict_keys_def example_store_def)
  have i: "index_value (PInt 0 :: (unit, unit) pyval) = Some 0 \<and> (0::int) \<le> 0
      \<and> 0 < int (length (enc_rows (example_store :: (unit, unit) SCSVObject)))"
    by (simp add: example_store_def)
  from update_row_unknown_column [where X = example_host and fs = Map.empty
      and self = example_store and index = "PInt 0" and k = 0
      and row_data = "[(Some ''c'', PList [PDict []]), (Some ''zzz'', PInt 1)]"
      and pre = "[(Some ''c'', PList [PDict []])]" and col = "Some ''zzz''" and val = "PInt 1"
      and post = "[]"] h i
  obtain e where
    u: "update_row example_host (PInt 0)
          [(Some ''c'', PList [PDict []]), (Some ''zzz'', PInt 1)] (example_store, Map.empty)
          = (Inl e, example_store, Map.empty)"
    and n: "\<forall>good c x rest t err.
               [(Some ''c'', PList [PDict []] :: (unit, unit) pyval)] = good @ (c, x) # rest
               \<and> (\<forall>(c', x')\<in>set good. \<exists>t low.
                     get_annotation (annotations (example_store :: (unit, unit) SCSVObject)) c'
                       = Some t
                     \<and> encode example_host t x' = Inr low)
               \<and> get_annotation (annotations (example_store :: (unit, unit) SCSVObject)) c
                   = Some t
               \<and> encode example_host t x = Inl err
               \<longrightarrow> e = err"
    by blast
  have "encode example_host Array (PList [PDict []]) = Inl ValueError"
    by code_simp
  with n [rule_format, of "[]" "Some ''c''" "PList [PDict []]" "[]" Array ValueError]
  have "e = ValueError"
    by (simp add: get_annotation_def dict_get_def example_store_def)
  with u have 3: "update_row example_host (PInt 0)
          [(Some ''c'', PList [PDict []]), (Some ''zzz'', PInt 1)] (example_store, Map.empty)
          = (Inl ValueError, example_store, Map.empty)"
    by simp
  have b: "\<forall>(c, x)\<in>set [(Some ''b'', PStr ''q'' :: (unit, unit) pyval)].
             \<exists>t low. get_annotation (annotations example_store) c = Some t
               \<and> encode example_host t x = Inr low"
    by (simp add: get_annotation_def dict_get_def example_store_def String_encode_def)
  have e: "encode_row example_host example_store [(Some ''b'', PStr ''q'')]
             = Inr [(Some ''b'', PStr ''q'')]"
    by code_simp
  from update_row_unknown_column [where X = example_host and fs = Map.empty
      and self = example_store and index = "PInt 0" and k = 0
      and row_data = "[(Some ''b'', PStr ''q'')]"] b i e
  have 4: "fst (snd (update_row example_host (PInt 0) [(Some ''b'', PStr ''q'')]
         (example_store, Map.empty)))
       = example_store\<lparr>enc_rows :=
           [[(Some ''b'', PStr ''q'')],
            [(Some ''a'', PStr ''2''), (Some ''b'', PStr ''y''), (Some ''c'', PStr [])]]\<rparr>"
    by (auto simp: example_store_def)
  from 1 2 3 4 show ?thesis by simp
qed

text \<open>
  The claim as it was stated fails for a row whose Array value holds a dict in front of the
  unknown column: the error is the ValueError of \<^verbatim>\<open>Array.encode\<close>, not an UpdateError.
\<close>

theorem update_row_unknown_column_counterexample:
  "fst (update_row example_host (PInt 0)
          [(Some ''c'', PList [PDict []]), (Some ''zzz'', PInt 1)]
          (example_store, Map.empty)) = Inl ValueError"
  by code_simp

text \<open>
  The row is replaced in the object before \<^verbatim>\<open>_save\<close> runs, and \<^verbatim>\<open>_save\<close> opens the file for
  writing before it builds the text. An int that encodes but does not print (Integer keeps
  it as it is) is therefore stored, the file is emptied, and the ValueError of \<^verbatim>\<open>str\<close>
  comes out of \<open>update_row\<close>.
\<close>

lemma update_row_unprintable:
  assumes "0 < int_max_str_digits X" "10 ^ int_max_str_digits X \<le> \<bar>i\<bar>"
  shows "update_row X (PInt 0) [(Some ''a'', PInt i)] (example_store, fs)
     = (Inl ValueError,
        example_store\<lparr>enc_rows :=
          [[(Some ''a'', PInt i)],
           [(Some ''a'', PStr ''2''), (Some ''b'', PStr ''y''), (Some ''c'', PStr [])]]\<rparr>,
        fs(''t.scsv'' \<mapsto> []))"
proof -
  have "str_int X i = Inl ValueError"
    using assms by (rule str_int_too_long)
  then show ?thesis
    by (simp add: validate_index_def example_store_def encode_row_def has_annotation_def
        get_annotation_def dict_has_def dict_keys_def dict_get_def Integer_encode_def
        save_def document_def row_line_def dict_values_def Let_def)
qed




subsection \<open>Persistence\<close>

text \<open>
  Claim C7: each successful mutation rewrites the document as the header text, the
  separator, the field line and one line per row with the row's values in the order of
  the field list, whatever the order in which the row's columns were supplied.

  \<^verbatim>\<open>_save\<close> joins \<^verbatim>\<open>row.values()\<close>, the values in the order of the row's own columns. After
  \<^verbatim>\<open>update_row(0, {"b": "z", "a": 7, "c": []})\<close> on the example store, on every host and
  whatever the files held, the file's first row is \<^verbatim>\<open>z,7,\<close> under the field line \<^verbatim>\<open>a,b,c\<close>
  (the field order gives \<^verbatim>\<open>7,z,\<close>), and parsing the file again puts \<^verbatim>\<open>z\<close> in column
  \<^verbatim>\<open>a\<close> and \<^verbatim>\<open>7\<close> in column \<^verbatim>\<open>b\<close>.
\<close>

theorem save_row_in_column_order:
  "fst (update_row X (PInt 0)
          [(Some ''b'', PStr ''z''), (Some ''a'', PInt 7), (Some ''c'', PList [])] (example_store, fs))
     = Inr ()
   \<and> snd (snd (update_row X (PInt 0)
          [(Some ''b'', PStr ''z''), (Some ''a'', PInt 7), (Some ''c'', PList [])] (example_store, fs)))
        ''t.scsv''
       = Some ''a: int\<newline>b: str\<newline>c: arr\<newline>@@\<newline>a,b,c\<newline>z,7,\<newline>2,y,\<newline>''
   \<and> parse example_host ''a: int\<newline>b: str\<newline>c: arr\<newline>@@\<newline>a,b,c\<newline>z,7,\<newline>2,y,\<newline>''
         (Some ''t.scsv'')
       = Inr (example_store\<lparr>enc_rows :=
           [[(Some ''a'', PStr ''z''), (Some ''b'', PStr ''7''), (Some ''c'', PStr [])],
            [(Some ''a'', PStr ''2''), (Some ''b'', PStr ''y''), (Some ''c'', PStr [])]]\<rparr>)"
proof -
  have d: "str_int X 7 = Inr ''7''"
    by (auto simp: str_int_def digits_allowed_def digits.simps digit_char_def)
  have w: "fst (update_row X (PInt 0)
          [(Some ''b'', PStr ''z''), (Some ''a'', PInt 7), (Some ''c'', PList [])] (example_store, fs))
     = Inr ()
   \<and> snd (snd (update_row X (PInt 0)
          [(Some ''b'', PStr ''z''), (Some ''a'', PInt 7), (Some ''c'', PList [])] (example_store, fs)))
        ''t.scsv''
       = Some ''a: int\<newline>b: str\<newline>c: arr\<newline>@@\<newline>a,b,c\<newline>z,7,\<newline>2,y,\<newline>''"
    by (simp add: example_store_def validate_index_def encode_row_def has_annotation_def
        get_annotation_def dict_has_def dict_keys_def dict_get_def Integer_encode_def
        String_encode_def Array_encode_def save_def document_def row_line_def
        dict_values_def d)
  have r: "parse example_host
         ''a: int\<newline>b: str\<newline>c: arr\<newline>@@\<newline>a,b,c\<newline>z,7,\<newline>2,y,\<newline>'' (Some ''t.scsv'')
       = Inr (example_store\<lparr>enc_rows :=
           [[(Some ''a'', PStr ''z''), (Some ''b'', PStr ''7''), (Some ''c'', PStr [])],
            [(Some ''a'', PStr ''2''), (Some ''b'', PStr ''y''), (Some ''c'', PStr [])]]\<rparr>)"
    by code_simp
  from w r show ?thesis by simp
qed

subsection \<open>Traversal\<close>

lemma read_all_list_drop:
  "read_all_list X self (At pos) = decode_all X self (drop pos (enc_rows self))"
proof (induction "length (enc_rows self) - pos" arbitrary: pos)
  case 0
  then show ?case
    by (simp add: read_all_list.simps [of X self "At pos"])
next
  case (Suc n)
  then have lt: "pos < length (enc_rows self)" and n: "n = length (enc_rows self) - Suc pos"
    by simp_all
  from lt have d: "drop pos (enc_rows self) = enc_rows self ! pos # drop (Suc pos) (enc_rows self)"
    by (simp add: Cons_nth_drop_Suc)
  show ?case
    using lt Suc.hyps(1) [OF n]
    by (simp add: read_all_list.simps [of X self "At pos"] d split: sum.splits)
qed

lemma caller_exhausted: "caller X (replicate n Next) w Exhausted = []"
  by (induction n) simp_all

lemma caller_next_only:
  "caller X (replicate n Next) (self, fs) (At pos)
     = take n (fst (decode_all X self (drop pos (enc_rows self))))"
proof (induction n arbitrary: pos)
  case 0
  show ?case by simp
next
  case (Suc n)
  show ?case
  proof (cases "pos < length (enc_rows self)")
    case False
    then show ?thesis by (simp add: caller_exhausted)
  next
    case True
    then have d: "drop pos (enc_rows self) = enc_rows self ! pos # drop (Suc pos) (enc_rows self)"
      by (simp add: Cons_nth_drop_Suc)
    show ?thesis
    proof (cases "decode_row X self (enc_rows self ! pos)")
      case (Inl e)
      with True show ?thesis by (simp add: d caller_exhausted)
    next
      case (Inr dec_row)
      with True Suc.IH [of "Suc pos"] show ?thesis by (simp add: d)
    qed
  qed
qed

text \<open>
  Claim C8: \<open>read_all\<close> traverses a snapshot of the rows taken when the call starts, and
  mutations between yields are not observed by a traversal in progress.

  As amended: \<open>read_all\<close> is a generator over the live list of rows. A traversal that
  nobody disturbs yields the decoded rows of the store in order (up to the first row that
  does not decode). After a mutation, a traversal whose iterator stands at \<open>pos\<close> goes on
  with the rows from \<open>pos\<close> of the store as the mutation left it, whatever the rows were
  when the call started. Each \<^verbatim>\<open>next\<close> that yields decodes the row at the iterator's
  position in the store as it is then and moves the iterator one row on.
\<close>

theorem read_all_live:
  "read_all_list X self read_all = decode_all X self (enc_rows self)
   \<and> caller X (replicate n Next) (self, fs) read_all
       = take n (fst (decode_all X self (enc_rows self)))
   \<and> caller X (Mutate m # replicate n Next) (self, fs) (At pos)
       = take n (fst (decode_all X (fst (snd (m (self, fs))))
                        (drop pos (enc_rows (fst (snd (m (self, fs))))))))
   \<and> (read_all_next X self (At pos) = (Yield dec_row, g')
        \<longrightarrow> g' = At (Suc pos) \<and> pos < length (enc_rows self)
            \<and> decode_row X self (enc_rows self ! pos) = Inr dec_row)"
proof (intro conjI impI)
  show "read_all_list X self read_all = decode_all X self (enc_rows self)"
    using read_all_list_drop [of X self 0] by (simp add: read_all_def)
  show "caller X (replicate n Next) (self, fs) read_all
       = take n (fst (decode_all X self (enc_rows self)))"
    using caller_next_only [of X n self fs 0] by (simp add: read_all_def)
  show "caller X (Mutate m # replicate n Next) (self, fs) (At pos)
       = take n (fst (decode_all X (fst (snd (m (self, fs))))
                        (drop pos (enc_rows (fst (snd (m (self, fs))))))))"
    using caller_next_only [of X n "fst (snd (m (self, fs)))" "snd (snd (m (self, fs)))" pos]
    by simp
next
  assume y: "read_all_next X self (At pos) = (Yield dec_row, g')"
  then show "g' = At (Suc pos)"
    by (auto split: if_splits sum.splits)
  from y show "pos < length (enc_rows self)"
    by (auto split: if_splits sum.splits)
  from y show "decode_row X self (enc_rows self ! pos) = Inr dec_row"
    by (auto split: if_splits sum.splits)
qed

theorem read_all_live_witness:
  "read_all_list example_host example_store read_all
     = decode_all example_host example_store (enc_rows example_store)
   \<and> read_all_next example_host example_store (At 0)
       = (Yield [(Some ''a'', PInt 1), (Some ''b'', PStr ''x''), (Some ''c'', PList [])], At (Suc 0))
   \<and> 0 < length (enc_rows (example_store :: (unit, unit) SCSVObject))
   \<and> decode_row example_host example_store (enc_rows example_store ! 0)
       = Inr [(Some ''a'', PInt 1), (Some ''b'', PStr ''x''), (Some ''c'', PList [])]"
proof -
  have n: "read_all_next example_host example_store (At 0)
       = (Yield [(Some ''a'', PInt 1), (Some ''b'', PStr ''x''), (Some ''c'', PList [])], At (Suc 0))"
    by code_simp
  from read_all_live [of example_host example_store 0 Map.empty "\<lambda>w. (Inr (), w)" 0
      "[(Some ''a'', PInt 1), (Some ''b'', PStr ''x''), (Some ''c'', PList [])]" "At (Suc 0)"] n
  show ?thesis by simp
qed

text \<open>
  The claim as it was stated fails on the store of two rows. A caller that inserts a row
  after the first yield is given three rows, and one that removes row 0 after the first
  yield is given one (the second \<^verbatim>\<open>next\<close> finds the list exhausted), where the rows of
  the store at the start of the call are two.
\<close>

theorem read_all_snapshot_counterexample:
  "caller example_host
     [Next, Mutate (insert_row example_host [(Some ''a'', PInt 3), (Some ''b'', PStr ''z''), (Some ''c'', PList [])]),
      Next, Next, Next]
     (example_store, Map.empty) read_all
     = [[(Some ''a'', PInt 1), (Some ''b'', PStr ''x''), (Some ''c'', PList [])],
        [(Some ''a'', PInt 2), (Some ''b'', PStr ''y''), (Some ''c'', PList [])],
        [(Some ''a'', PInt 3), (Some ''b'', PStr ''z''), (Some ''c'', PList [])]]
   \<and> caller example_host [Next, Mutate (remove_row example_host (PInt 0)), Next, Next]
       (example_store, Map.empty) read_all
       = [[(Some ''a'', PInt 1), (Some ''b'', PStr ''x''), (Some ''c'', PList [])]]
   \<and> fst (read_all_list example_host example_store read_all)
       = [[(Some ''a'', PInt 1), (Some ''b'', PStr ''x''), (Some ''c'', PList [])],
          [(Some ''a'', PInt 2), (Some ''b'', PStr ''y''), (Some ''c'', PList [])]]"
  by code_simp

end
